theory Spec2Isabelle
  imports Main
begin

section \<open>Values, exceptions and host effects\<close>

text \<open>
  The book provider handles untyped data (\<^verbatim>\<open>any\<close>): what \<^verbatim>\<open>yaml.safeLoad\<close> returns and
  what a table-of-contents entry holds. Numbers are integers here; an empty YAML document
  loads as \<^verbatim>\<open>undefined\<close>.
\<close>

datatype jsval =
    JUndefined
  | JNull
  | JBool bool
  | JNum int
  | JStr string
  | JArr "jsval list"
  | JObj "(string \<times> jsval) list"

text \<open>A thrown value: an \<^verbatim>\<open>Error\<close> object with its message, or any other value.\<close>

datatype exn = Error string | Thrown jsval

text \<open>\<^verbatim>\<open>e instanceof Error ? e.message : e\<close>\<close>

fun exn_arg :: "exn \<Rightarrow> jsval" where
  "exn_arg (Error m) = JStr m"
| "exn_arg (Thrown v) = v"

text \<open>JavaScript truthiness, as tested by \<^verbatim>\<open>if (x)\<close>.\<close>

fun truthy :: "jsval \<Rightarrow> bool" where
  "truthy JUndefined = False"
| "truthy JNull = False"
| "truthy (JBool b) = b"
| "truthy (JNum n) = (n \<noteq> 0)"
| "truthy (JStr s) = (s \<noteq> [])"
| "truthy (JArr xs) = True"
| "truthy (JObj kvs) = True"

text \<open>
  Property read \<^verbatim>\<open>v.k\<close> for the data properties the provider reads (\<^verbatim>\<open>url\<close>,
  \<^verbatim>\<open>external\<close>, \<^verbatim>\<open>title\<close>, \<^verbatim>\<open>sections\<close>): a TypeError on \<^verbatim>\<open>undefined\<close> and
  \<^verbatim>\<open>null\<close>, the stored value on an object, \<^verbatim>\<open>undefined\<close> on everything else.
\<close>

fun member :: "jsval \<Rightarrow> string \<Rightarrow> exn + jsval" where
  "member JUndefined k = Inl (Error (''Cannot read property '' @ k @ '' of undefined''))"
| "member JNull k = Inl (Error (''Cannot read property '' @ k @ '' of null''))"
| "member (JObj kvs) k = Inr (case map_of kvs k of None \<Rightarrow> JUndefined | Some w \<Rightarrow> w)"
| "member v k = Inr JUndefined"

datatype arg = AStr string | ABool bool | AUri string

text \<open>What the host application observes, in order.\<close>

datatype effect =
    ShowErrorMessage string
  | ShowTextDocument string
  | ExecuteCommand string "arg list"
  | OpenExternal string
  | ConsoleLog exn
  | ReadAllTOCFilesFired
  | DidChangeTreeDataFired
  | ListenerDisposed

section \<open>Book tree items\<close>

datatype BookTreeItemType = Book | Notebook | Markdown | ExternalLink

text \<open>
  The class \<^verbatim>\<open>BookTreeItem\<close> lives in \<^verbatim>\<open>./bookTreeItem\<close>. An item is the format object
  and the icon pair handed to its constructor; the getters computed by that class
  (\<^verbatim>\<open>sections\<close>, \<^verbatim>\<open>previousUri\<close>, \<^verbatim>\<open>nextUri\<close>) are parameters of the host below.
\<close>

record book_item =
  title :: jsval
  root :: string
  tableOfContents :: "jsval list"
  page :: jsval
  itemType :: BookTreeItemType
  iconLight :: string
  iconDark :: string

record NavigationResult =
  hasNavigation :: bool
  previous :: "string option"
  "next" :: "string option"

section \<open>The host\<close>

text \<open>
  Everything the provider calls but does not define: the file system, the YAML parser,
  the glob library, path arithmetic, the editor API and the localization bundle. A call
  that can throw (or, when awaited, reject) returns a sum or an \<open>exn option\<close>;
  \<^verbatim>\<open>showErrorMessage\<close>, \<^verbatim>\<open>console.log\<close> and event firing only record an effect.
  The setting \<^verbatim>\<open>maxBookSearchDepth\<close> is a number or \<^verbatim>\<open>undefined\<close>.
\<close>

record host =
  existsSync :: "string \<Rightarrow> bool"
  readFileSync :: "string \<Rightarrow> exn + string"
  safeLoad :: "string \<Rightarrow> exn + jsval"
  glob :: "string \<Rightarrow> int option \<Rightarrow> exn + string list"
  path_join :: "string list \<Rightarrow> string"
  path_dirname :: "string \<Rightarrow> string"
  asAbsolutePath :: "string \<Rightarrow> string"
  localize :: "string \<Rightarrow> string \<Rightarrow> jsval list \<Rightarrow> string"
  openTextDocument :: "string \<Rightarrow> exn + string"
  showTextDocument :: "string \<Rightarrow> exn option"
  executeCommand :: "string \<Rightarrow> arg list \<Rightarrow> exn option"
  openExternal :: "string \<Rightarrow> exn option"
  uriFile :: "string \<Rightarrow> string"
  uriParse :: "string \<Rightarrow> exn + string"
  configMaxBookSearchDepth :: "int option"
  workspaceFolders :: "string list option"
  itemSections :: "book_item \<Rightarrow> jsval list option"
  previousUri :: "book_item \<Rightarrow> string option"
  nextUri :: "book_item \<Rightarrow> string option"

section \<open>Provider state\<close>

text \<open>
  The private fields of \<^verbatim>\<open>BookTreeViewProvider\<close>, followed by what the host keeps for
  it: the timers scheduled with \<^verbatim>\<open>setTimeout\<close> and not yet fired or cleared (each with
  the resource its callback closes over), the next timer handle, and the effects so far.
  A timer handle is always truthy; \<open>None\<close> is \<^verbatim>\<open>undefined\<close>.
\<close>

record state =
  tableOfContentPaths :: "string list"
  allNotebooks :: "string \<rightharpoonup> book_item"
  throttleTimer :: "nat option"
  resource :: "string option"
  timers :: "(nat \<times> string) list"
  nextHandle :: nat
  trace :: "effect list"

definition emit :: "effect \<Rightarrow> state \<Rightarrow> state" where
  "emit e s = s\<lparr>trace := trace s @ [e]\<rparr>"

fun clearTimeout :: "nat option \<Rightarrow> state \<Rightarrow> state" where
  "clearTimeout None s = s"
| "clearTimeout (Some t) s = s\<lparr>timers := filter (\<lambda>(t', r). t' \<noteq> t) (timers s)\<rparr>"

definition setTimeout :: "string \<Rightarrow> state \<Rightarrow> nat \<times> state" where
  "setTimeout r s =
     (nextHandle s, s\<lparr>timers := timers s @ [(nextHandle s, r)], nextHandle := Suc (nextHandle s)\<rparr>)"

definition initial :: state where
  "initial = \<lparr>tableOfContentPaths = [], allNotebooks = Map.empty, throttleTimer = None,
     resource = None, timers = [], nextHandle = 1, trace = []\<rparr>"

section \<open>Opening documents\<close>

definition openNotebook :: "host \<Rightarrow> string \<Rightarrow> state \<Rightarrow> (exn + unit) \<times> state" where
  "openNotebook h res s =
     (let failed = (\<lambda>e. emit (ShowErrorMessage
            (localize h ''openNotebookError'' ''Open file {0} failed: {1}'' [JStr res, exn_arg e])) s)
      in case openTextDocument h res of
           Inl e \<Rightarrow> (Inr (), failed e)
         | Inr doc \<Rightarrow>
             (case showTextDocument h doc of
                Some e \<Rightarrow> (Inr (), failed e)
              | None \<Rightarrow> (Inr (), emit (ShowTextDocument doc) s)))"

text \<open>The closure \<^verbatim>\<open>openMarkdown\<close> hands to \<^verbatim>\<open>runThrottledAction\<close>.\<close>

definition markdownAction :: "host \<Rightarrow> string \<Rightarrow> state \<Rightarrow> state" where
  "markdownAction h res s =
     (case executeCommand h ''markdown.showPreview'' [AUri (uriFile h res)] of
        None \<Rightarrow> emit (ExecuteCommand ''markdown.showPreview'' [AUri (uriFile h res)]) s
      | Some e \<Rightarrow> emit (ShowErrorMessage
            (localize h ''openMarkdownError'' ''Open file {0} failed: {1}'' [JStr res, exn_arg e])) s)"

text \<open>
  \<^verbatim>\<open>runThrottledAction\<close> is private and its one caller passes the closure above, so a
  pending timer is stored with the resource that closure captured.
\<close>

definition runThrottledAction :: "host \<Rightarrow> string \<Rightarrow> state \<Rightarrow> state" where
  "runThrottledAction h res s =
     (let isResourceChange = (Some res \<noteq> resource s);
          s1 = (if isResourceChange
                then (clearTimeout (throttleTimer s) s)\<lparr>throttleTimer := None\<rparr>
                else s);
          s2 = s1\<lparr>resource := Some res\<rparr>
      in if throttleTimer s2 = None
         then (if isResourceChange
               then markdownAction h res s2
               else (case setTimeout res s2 of (t, s3) \<Rightarrow> s3\<lparr>throttleTimer := Some t\<rparr>))
         else s2)"

definition openMarkdown :: "host \<Rightarrow> string \<Rightarrow> state \<Rightarrow> state" where
  "openMarkdown h res s = runThrottledAction h res s"

text \<open>The host fires timer \<open>t\<close>: the callback \<^verbatim>\<open>() => action()\<close> runs, and nothing else.\<close>

definition timerFires :: "host \<Rightarrow> nat \<Rightarrow> state \<Rightarrow> state" where
  "timerFires h t s =
     (case map_of (timers s) t of
        None \<Rightarrow> s
      | Some res \<Rightarrow> markdownAction h res (s\<lparr>timers := filter (\<lambda>(t', r). t' \<noteq> t) (timers s)\<rparr>))"

definition openExternalLink :: "host \<Rightarrow> string \<Rightarrow> state \<Rightarrow> state" where
  "openExternalLink h res s =
     (let failed = (\<lambda>e. emit (ShowErrorMessage
            (localize h ''openExternalLinkError'' ''Open link {0} failed: {1}'' [JStr res, exn_arg e])) s)
      in case uriParse h res of
           Inl e \<Rightarrow> failed e
         | Inr u \<Rightarrow>
             (case openExternal h u of
                Some e \<Rightarrow> failed e
              | None \<Rightarrow> emit (OpenExternal u) s))"

section \<open>Finding the tables of contents\<close>

text \<open>
  \<^verbatim>\<open>getTableOfContentFiles\<close> run from the call to the end with nothing else in between:
  \<open>globLoop\<close> is its \<^verbatim>\<open>for\<close> loop over the workspace paths, each \<^verbatim>\<open>await\<close> resumed at
  once. A rejected glob ends the loop with the paths appended so far left in place.
\<close>

definition tocPattern :: "host \<Rightarrow> string \<Rightarrow> string" where
  "tocPattern h workspacePath =
     map (\<lambda>c. if c = CHR 0x5C then CHR ''/'' else c)
       (path_join h [workspacePath, ''**'', ''_data'', ''toc.yml''])"

fun globLoop :: "host \<Rightarrow> int option \<Rightarrow> string list \<Rightarrow> state \<Rightarrow> exn option \<times> state" where
  "globLoop h maxDepth [] s = (None, s)"
| "globLoop h maxDepth (workspacePath # rest) s =
     (case glob h (tocPattern h workspacePath) maxDepth of
        Inl e \<Rightarrow> (Some e, s)
      | Inr found \<Rightarrow>
          globLoop h maxDepth rest (s\<lparr>tableOfContentPaths := tableOfContentPaths s @ found\<rparr>))"

text \<open>The value handed to \<^verbatim>\<open>glob\<close> as \<^verbatim>\<open>deep\<close>; \<open>None\<close> is \<^verbatim>\<open>undefined\<close>.\<close>

definition maxDepth :: "int option \<Rightarrow> int option" where
  "maxDepth configured =
     (if configured = None \<or> (case configured of Some d \<Rightarrow> d < 0 | None \<Rightarrow> False) then Some 5
      else if configured = Some 0 then None
      else configured)"

definition getTableOfContentFiles :: "host \<Rightarrow> string list \<Rightarrow> state \<Rightarrow> (exn + unit) \<times> state" where
  "getTableOfContentFiles h folders s =
     (case globLoop h (maxDepth (configMaxBookSearchDepth h)) folders s of
        (Some e, s1) \<Rightarrow> (Inl e, s1)
      | (None, s1) \<Rightarrow>
          (let bookOpened = (length (tableOfContentPaths s1) > 0) in
           case executeCommand h ''setContext'' [AStr ''bookOpened'', ABool bookOpened] of
             Some e \<Rightarrow> (Inl e, s1)
           | None \<Rightarrow>
               (Inr (), emit ReadAllTOCFilesFired
                  (emit (ExecuteCommand ''setContext'' [AStr ''bookOpened'', ABool bookOpened]) s1))))"

text \<open>
  The same method, one \<^verbatim>\<open>await\<close> at a time. The method is \<^verbatim>\<open>async\<close>: it runs up to
  its first \<^verbatim>\<open>await glob(...)\<close> within the call, and each later piece runs when the
  awaited glob settles, with whatever other calls the host made in between. A scan in
  flight is the glob it waits for and the workspace paths still to come; \<open>scanStart\<close> is
  the call, \<open>scanResume\<close> the piece that runs when the glob settles (it reads
  \<^verbatim>\<open>this._tableOfContentPaths\<close> as it then is), \<open>scanFinish\<close> the statements after the
  loop. \<open>scanToEnd\<close> resumes a scan until it settles with nothing else in between, which
  is what \<open>getTableOfContentFiles\<close> above computes.
\<close>

record scan =
  scanPattern :: string
  scanDepth :: "int option"
  scanRest :: "string list"

datatype scan_status = Awaiting scan | Settled "exn + unit"

definition scanFinish :: "host \<Rightarrow> state \<Rightarrow> (exn + unit) \<times> state" where
  "scanFinish h s =
     (let bookOpened = (length (tableOfContentPaths s) > 0) in
      case executeCommand h ''setContext'' [AStr ''bookOpened'', ABool bookOpened] of
        Some e \<Rightarrow> (Inl e, s)
      | None \<Rightarrow>
          (Inr (), emit ReadAllTOCFilesFired
             (emit (ExecuteCommand ''setContext'' [AStr ''bookOpened'', ABool bookOpened]) s)))"

fun scanNext :: "host \<Rightarrow> int option \<Rightarrow> string list \<Rightarrow> state \<Rightarrow> scan_status \<times> state" where
  "scanNext h depth [] s = (case scanFinish h s of (r, s1) \<Rightarrow> (Settled r, s1))"
| "scanNext h depth (workspacePath # rest) s =
     (Awaiting \<lparr>scanPattern = tocPattern h workspacePath, scanDepth = depth, scanRest = rest\<rparr>, s)"

definition scanStart :: "host \<Rightarrow> string list \<Rightarrow> state \<Rightarrow> scan_status \<times> state" where
  "scanStart h folders s = scanNext h (maxDepth (configMaxBookSearchDepth h)) folders s"

definition scanResume :: "host \<Rightarrow> scan \<Rightarrow> state \<Rightarrow> scan_status \<times> state" where
  "scanResume h sc s =
     (case glob h (scanPattern sc) (scanDepth sc) of
        Inl e \<Rightarrow> (Settled (Inl e), s)
      | Inr found \<Rightarrow>
          scanNext h (scanDepth sc) (scanRest sc)
            (s\<lparr>tableOfContentPaths := tableOfContentPaths s @ found\<rparr>))"

function scanToEnd :: "host \<Rightarrow> scan_status \<times> state \<Rightarrow> (exn + unit) \<times> state" where
  "scanToEnd h (Settled r, s) = (r, s)"
| "scanToEnd h (Awaiting sc, s) = scanToEnd h (scanResume h sc s)"
  by pat_completeness auto
termination
proof (relation "measure (\<lambda>(h, st, s). case st of Settled r \<Rightarrow> 0 | Awaiting sc \<Rightarrow> Suc (length (scanRest sc)))")
  show "wf (measure (\<lambda>(h, st, s). case st of Settled r \<Rightarrow> 0 | Awaiting sc \<Rightarrow> Suc (length (scanRest sc))))"
    by simp
next
  fix h sc s
  show "((h, scanResume h sc s), (h, Awaiting sc, s))
      \<in> measure (\<lambda>(h, st, s). case st of Settled r \<Rightarrow> 0 | Awaiting sc \<Rightarrow> Suc (length (scanRest sc)))"
    by (cases "scanRest sc")
      (auto simp: scanResume_def split: sum.splits prod.splits)
qed

text \<open>
  \<^verbatim>\<open>workspace.workspaceFolders\<close> is \<^verbatim>\<open>undefined\<close> when no folder is open, and
  \<^verbatim>\<open>workspaceFolders.map\<close> then throws.
\<close>

definition refresh :: "host \<Rightarrow> state \<Rightarrow> (exn + unit) \<times> state" where
  "refresh h s =
     (let s1 = s\<lparr>tableOfContentPaths := []\<rparr> in
      case workspaceFolders h of
        None \<Rightarrow> (Inl (Error ''Cannot read property map of undefined''), s1)
      | Some folders \<Rightarrow>
          (case getTableOfContentFiles h folders s1 of
             (Inl e, s2) \<Rightarrow> (Inl e, s2)
           | (Inr u, s2) \<Rightarrow> (Inr (), emit DidChangeTreeDataFired s2)))"

text \<open>
  The provider once the scan its constructor starts has settled, nothing else having run
  in between: the constructor itself returns with that scan in flight. A rejected scan
  is logged to the console.
\<close>

definition constructor :: "host \<Rightarrow> string list \<Rightarrow> state" where
  "constructor h folders =
     (case getTableOfContentFiles h folders initial of
        (Inl e, s) \<Rightarrow> emit (ConsoleLog e) s
      | (Inr u, s) \<Rightarrow> s)"

section \<open>Books and sections\<close>

lemma map_of_size_less:
  "map_of kvs k = Some w \<Longrightarrow> size w < Suc (size_list (size_prod (\<lambda>_. 0) size) kvs)"
  by (induction kvs) (auto split: if_splits)

lemma member_size_le: "member v k = Inr w \<Longrightarrow> size w \<le> size v"
  by (cases v) (auto split: option.splits dest: map_of_size_less)

text \<open>\<^verbatim>\<open>acc.concat(val)\<close>: an array argument is spread, anything else is appended.\<close>

fun array_concat :: "jsval list \<Rightarrow> jsval \<Rightarrow> jsval list" where
  "array_concat acc (JArr ys) = acc @ ys"
| "array_concat acc v = acc @ [v]"

text \<open>
  \<^verbatim>\<open>flattenArray\<close>: \<^verbatim>\<open>array.reduce\<close> exists on arrays only, and reading
  \<^verbatim>\<open>val.sections\<close> throws on a \<^verbatim>\<open>null\<close> element. \<open>flattenReduce\<close> is the reduction with
  its accumulator.
\<close>

function flattenArray :: "jsval \<Rightarrow> exn + jsval list"
  and flattenReduce :: "jsval list \<Rightarrow> jsval list \<Rightarrow> exn + jsval list" where
  "flattenArray v =
     (case v of JArr xs \<Rightarrow> flattenReduce xs []
      | _ \<Rightarrow> Inl (Error ''array.reduce is not a function''))"
| "flattenReduce [] acc = Inr acc"
| "flattenReduce (val # rest) acc =
     (case member val ''sections'' of
        Inl e \<Rightarrow> Inl e
      | Inr secs \<Rightarrow>
          (case secs of
             JArr ss \<Rightarrow>
               (case flattenArray secs of
                  Inl e \<Rightarrow> Inl e
                | Inr sub \<Rightarrow> flattenReduce rest (array_concat acc val @ sub))
           | _ \<Rightarrow> flattenReduce rest (array_concat acc val)))"
  by pat_completeness auto
termination
proof (relation "measure (\<lambda>x. case x of Inl v \<Rightarrow> 2 * size v + 1 | Inr (xs, acc) \<Rightarrow> 2 * size_list size xs)")
  show "wf (measure (\<lambda>x. case x of Inl v \<Rightarrow> 2 * size v + 1 | Inr (xs, acc) \<Rightarrow> 2 * size_list size xs))"
    by simp
next
  fix v :: jsval and xs
  assume "v = JArr xs"
  then show "(Inr (xs, []), Inl v) \<in> measure (\<lambda>x. case x of Inl v \<Rightarrow> 2 * size v + 1 | Inr (xs, acc) \<Rightarrow> 2 * size_list size xs)"
    by simp
next
  fix val :: jsval and rest and acc :: "jsval list" and secs ss
  assume "member val ''sections'' = Inr secs" "secs = JArr ss"
  then have "size secs \<le> size val" by (auto dest: member_size_le)
  then show "(Inl secs, Inr (val # rest, acc)) \<in> measure (\<lambda>x. case x of Inl v \<Rightarrow> 2 * size v + 1 | Inr (xs, acc) \<Rightarrow> 2 * size_list size xs)"
    by simp
qed auto

text \<open>
  \<^verbatim>\<open>getBooks\<close>, one table-of-contents path at a time. Inside the \<^verbatim>\<open>try\<close>: both file
  reads and parses, then \<^verbatim>\<open>config.title\<close> and \<^verbatim>\<open>flattenArray\<close> while the argument of
  the item constructor is built.
\<close>

definition loadBook :: "host \<Rightarrow> string \<Rightarrow> string \<Rightarrow> exn + book_item" where
  "loadBook h root_dir tocPath =
     (case readFileSync h (path_join h [root_dir, ''_config.yml'']) of
        Inl e \<Rightarrow> Inl e
      | Inr configText \<Rightarrow>
     (case safeLoad h configText of
        Inl e \<Rightarrow> Inl e
      | Inr config \<Rightarrow>
     (case readFileSync h tocPath of
        Inl e \<Rightarrow> Inl e
      | Inr tocText \<Rightarrow>
     (case safeLoad h tocText of
        Inl e \<Rightarrow> Inl e
      | Inr toc \<Rightarrow>
     (case member config ''title'' of
        Inl e \<Rightarrow> Inl e
      | Inr t \<Rightarrow>
     (case flattenArray toc of
        Inl e \<Rightarrow> Inl e
      | Inr flat \<Rightarrow>
          Inr \<lparr>title = t, root = root_dir, tableOfContents = flat, page = toc, itemType = Book,
               iconLight = asAbsolutePath h ''resources/light/book.svg'',
               iconDark = asAbsolutePath h ''resources/dark/book_inverse.svg''\<rparr>))))))"

fun booksLoop :: "host \<Rightarrow> string list \<Rightarrow> book_item list \<Rightarrow> state \<Rightarrow> book_item list \<times> state" where
  "booksLoop h [] books s = (books, s)"
| "booksLoop h (tocPath # rest) books s =
     (let root_dir = path_dirname h (path_dirname h tocPath) in
      case loadBook h root_dir tocPath of
        Inr book \<Rightarrow> booksLoop h rest (books @ [book]) s
      | Inl e \<Rightarrow>
          booksLoop h rest books
            (emit (ShowErrorMessage (localize h ''openConfigFileError'' ''Open file {0} failed: {1}''
               [JStr (path_join h [root_dir, ''_config.yml'']), exn_arg e])) s))"

definition getBooks :: "host \<Rightarrow> state \<Rightarrow> (exn + book_item list) \<times> state" where
  "getBooks h s = (case booksLoop h (tableOfContentPaths s) [] s of (books, s1) \<Rightarrow> (Inr books, s1))"

text \<open>
  \<^verbatim>\<open>getSections\<close>. Nothing here is inside a \<^verbatim>\<open>try\<close>: a \<^verbatim>\<open>null\<close> entry throws at
  \<^verbatim>\<open>sections[i].url\<close>, and a truthy \<^verbatim>\<open>url\<close> that is not a string throws at
  \<^verbatim>\<open>url.concat\<close> or in \<^verbatim>\<open>path.join\<close>. The notebooks stored before a throw stay stored.
\<close>

definition sectionItem :: "host \<Rightarrow> jsval list \<Rightarrow> string \<Rightarrow> jsval \<Rightarrow> jsval
    \<Rightarrow> BookTreeItemType \<Rightarrow> string \<Rightarrow> string \<Rightarrow> book_item" where
  "sectionItem h toc root_dir sec t ty light dark =
     \<lparr>title = t, root = root_dir, tableOfContents = toc, page = sec, itemType = ty,
      iconLight = asAbsolutePath h light, iconDark = asAbsolutePath h dark\<rparr>"

fun sectionsLoop :: "host \<Rightarrow> jsval list \<Rightarrow> string \<Rightarrow> jsval list \<Rightarrow> book_item list \<Rightarrow> state
    \<Rightarrow> (exn + book_item list) \<times> state" where
  "sectionsLoop h toc root_dir [] notebooks s = (Inr notebooks, s)"
| "sectionsLoop h toc root_dir (sec # rest) notebooks s =
     (case member sec ''url'' of
        Inl e \<Rightarrow> (Inl e, s)
      | Inr url \<Rightarrow>
          if truthy url then
            (case member sec ''external'' of
               Inl e \<Rightarrow> (Inl e, s)
             | Inr ext \<Rightarrow>
            (case member sec ''title'' of
               Inl e \<Rightarrow> (Inl e, s)
             | Inr t \<Rightarrow>
                 if truthy ext then
                   (let externalLink = sectionItem h toc root_dir sec t ExternalLink
                          ''resources/light/link.svg'' ''resources/dark/link_inverse.svg''
                    in sectionsLoop h toc root_dir rest (notebooks @ [externalLink]) s)
                 else
                   (case url of
                      JStr u \<Rightarrow>
                        (let pathToNotebook = path_join h [root_dir, ''content'', u @ ''.ipynb''];
                             pathToMarkdown = path_join h [root_dir, ''content'', u @ ''.md'']
                         in if existsSync h pathToNotebook then
                              (let notebook = sectionItem h toc root_dir sec t Notebook
                                     ''resources/light/notebook.svg'' ''resources/dark/notebook_inverse.svg''
                               in sectionsLoop h toc root_dir rest (notebooks @ [notebook])
                                    (s\<lparr>allNotebooks := (allNotebooks s)(pathToNotebook \<mapsto> notebook)\<rparr>))
                            else if existsSync h pathToMarkdown then
                              (let markdown = sectionItem h toc root_dir sec t Markdown
                                     ''resources/light/markdown.svg'' ''resources/dark/markdown_inverse.svg''
                               in sectionsLoop h toc root_dir rest (notebooks @ [markdown]) s)
                            else
                              sectionsLoop h toc root_dir rest notebooks
                                (emit (ShowErrorMessage
                                   (localize h ''missingFileError'' ''Missing file : {0}'' [t])) s))
                    | _ \<Rightarrow> (Inl (Error ''url.concat did not give a path string''), s))))
          else sectionsLoop h toc root_dir rest notebooks s)"

definition getSections :: "host \<Rightarrow> jsval list \<Rightarrow> jsval list \<Rightarrow> string \<Rightarrow> state
    \<Rightarrow> (exn + book_item list) \<times> state" where
  "getSections h toc sections root_dir s = sectionsLoop h toc root_dir sections [] s"

definition getChildren :: "host \<Rightarrow> book_item option \<Rightarrow> state \<Rightarrow> (exn + book_item list) \<times> state" where
  "getChildren h element s =
     (case element of
        Some el \<Rightarrow>
          (case itemSections h el of
             Some secs \<Rightarrow> getSections h (tableOfContents el) secs (root el) s
           | None \<Rightarrow> (Inr [], s))
      | None \<Rightarrow> getBooks h s)"

definition getTreeItem :: "book_item \<Rightarrow> book_item" where
  "getTreeItem element = element"

text \<open>\<^verbatim>\<open>getNavigation\<close>; the argument is \<^verbatim>\<open>uri.fsPath\<close>. A stored item is an object, so truthy.\<close>

definition uriOf :: "host \<Rightarrow> string option \<Rightarrow> string option" where
  "uriOf h u = (case u of Some p \<Rightarrow> (if p \<noteq> [] then Some (uriFile h p) else None) | None \<Rightarrow> None)"

definition getNavigation :: "host \<Rightarrow> string \<Rightarrow> state \<Rightarrow> NavigationResult" where
  "getNavigation h fsPath s =
     (case allNotebooks s fsPath of
        Some notebook \<Rightarrow>
          \<lparr>hasNavigation = True,
           previous = uriOf h (previousUri h notebook),
           next = uriOf h (nextUri h notebook)\<rparr>
      | None \<Rightarrow> \<lparr>hasNavigation = False, previous = None, next = None\<rparr>)"

definition dispose :: "state \<Rightarrow> state" where
  "dispose s = emit ListenerDisposed s"

section \<open>Runs of the provider\<close>

text \<open>
  Every way the host can enter the provider after construction: its public methods,
  the workspace-folder listener (which calls \<^verbatim>\<open>refresh\<close>) and a timer firing. Each step
  comes with the host as it is at that moment, so files may come and go between steps.
  An \<^verbatim>\<open>async\<close> method runs to completion within its step.
\<close>

datatype op =
    Refresh
  | GetTableOfContentFiles "string list"
  | OpenNotebook string
  | OpenMarkdown string
  | OpenExternalLink string
  | GetTreeItem book_item
  | GetChildren "book_item option"
  | GetBooks
  | GetNavigation string
  | Dispose
  | TimerFires nat

fun perform :: "host \<Rightarrow> op \<Rightarrow> state \<Rightarrow> state" where
  "perform h Refresh s = snd (refresh h s)"
| "perform h (GetTableOfContentFiles folders) s = snd (getTableOfContentFiles h folders s)"
| "perform h (OpenNotebook res) s = snd (openNotebook h res s)"
| "perform h (OpenMarkdown res) s = openMarkdown h res s"
| "perform h (OpenExternalLink res) s = openExternalLink h res s"
| "perform h (GetTreeItem el) s = s"
| "perform h (GetChildren el) s = snd (getChildren h el s)"
| "perform h GetBooks s = snd (getBooks h s)"
| "perform h (GetNavigation p) s = s"
| "perform h Dispose s = dispose s"
| "perform h (TimerFires t) s = timerFires h t s"

fun run :: "(host \<times> op) list \<Rightarrow> state \<Rightarrow> state" where
  "run [] s = s"
| "run ((h, p) # rest) s = run rest (perform h p s)"

section \<open>The browser JSON language client\<close>

text \<open>
  \<^verbatim>\<open>activate\<close>. The worker constructor and \<^verbatim>\<open>startClient\<close> (imported from
  \<^verbatim>\<open>../jsonClient\<close>, and the only place the language-client constructor and the request
  service are used) are parameters; building the two closures cannot throw. The call of
  \<^verbatim>\<open>context.asAbsolutePath\<close> stands before the \<^verbatim>\<open>try\<close>.
\<close>

record client_host =
  context_asAbsolutePath :: "string \<Rightarrow> exn + string"
  newWorker :: "string \<Rightarrow> exn + nat"
  startClient :: "nat \<Rightarrow> exn option"

definition activate :: "client_host \<Rightarrow> (exn + unit) \<times> effect list" where
  "activate c =
     (case context_asAbsolutePath c ''server/dist/browser/jsonServerMain.js'' of
        Inl e \<Rightarrow> (Inl e, [])
      | Inr serverMain \<Rightarrow>
          (case newWorker c serverMain of
             Inl e \<Rightarrow> (Inr (), [ConsoleLog e])
           | Inr worker \<Rightarrow>
               (case startClient c worker of
                  Some e \<Rightarrow> (Inr (), [ConsoleLog e])
                | None \<Rightarrow> (Inr (), []))))"

section \<open>The welcome page\<close>

text \<open>
  The default export of the welcome-page module is one template literal. Its value is the
  concatenation of the literal text and the interpolated expressions, each of which is
  \<^verbatim>\<open>escape(localize(key, message))\<close> or \<^verbatim>\<open>require.toUrl(path)\<close>. The imported
  \<^verbatim>\<open>localize\<close> and \<^verbatim>\<open>escape\<close> and the loader's \<^verbatim>\<open>toUrl\<close> are parameters.
\<close>

definition welcomePage :: "(string \<Rightarrow> string \<Rightarrow> string) \<Rightarrow> (string \<Rightarrow> string) \<Rightarrow> (string \<Rightarrow> string) \<Rightarrow> string" where
  \<open>welcomePage loc esc toUrl = concat [''
<div class="welcomePageContainer">
	<div class="welcomePage">
		<div class="ads-homepage splash">
			<div class="gradient">
				<div class="preview-text tool-tip">
					<div class="tool-tip-container" id="tool-tip-container-wide">
						<a class="ads-welcome-page-link" aria-describedby="tooltip-text-wide" id="preview-link-wide" class="preview-link" tabindex="0" name="preview"><p>Preview</p><i class="icon-info themed-icon"></i></a>
						<span role="tooltip" id="tooltip-text-wide" class="tool-tip-text" aria-hidden="true">
							<h3 tabindex="0" class="preview-tooltip-header">'', esc (loc ''welcomePage.previewHeader'' ''This page is in preview''), ''</h3>
							<p tabindex="0" class="preview-tooltip-body">'', esc (loc ''welcomePage.previewBody'' ''Preview features introduce new functionalities that are on track to becoming a permanent part the product. They are stable, but need additional accessibility improvements. We welcome your early feedback while they are under development.''), ''</p>
						</span>
					</div>
					<div class="tool-tip-container" id="tool-tip-container-narrow">
						<a class="ads-welcome-page-link" aria-haspopup="true" class="preview-link" tabindex="0" id="preview-link-narrow" name="previewNarrow"><p>Preview</p><i class="icon-info themed-icon"></i></a>
					</div>
				</div>
				<div id="preview-modal" class="modal" aria-modal="true" aria-hidden="true">
					<div class="modal-content">
						<span class="close-icon">x</span>
						<h3 tabindex="0" class="preview-modal-header">'', esc (loc ''welcomePage.previewHeader'' ''This page is in preview''), ''</h3>
						<p tabindex="0" class="preview-modal-body">'', esc (loc ''welcomePage.previewBody'' ''Preview features introduce new functionalities that are on track to becoming a permanent part the product. They are stable, but need additional accessibility improvements. We welcome your early feedback while they are under development.''), ''</p>
					</div>
				</div>
				<div class="ads-homepage-section section header hero">
					<div class="row start">
						<div class="header-top-nav">
							<div class="flex">
								<div class="icon sm"></div>
								<div class="title">
									<div class="caption-container">
										<span class="icon xs"></span><h1 class="caption"></h1>
									</div>
									<div class="flex btn-container">
										<div>
											<button id="dropdown-btn" class="btn btn-primary dropdown" role="navigation" aria-haspopup="true" aria-controls="dropdown">
												<div class="dropdown-text" style="pointer-events: none;">
													<span>'', esc (loc ''welcomePage.new'' ''New''), ''</span><i class="icon-arrow-down"></i>
												</div>
											</button>
											<nav role="navigation" class="dropdown-nav">
												<ul id="dropdown" class="dropdown-content" aria-hidden="true" aria-label="submenu" role="menu" aria-labelledby="dropdown-btn">
													<li role="none"><a class="ads-welcome-page-link" role="menuitem" tabIndex="-1" class="move" href="command:registeredServers.addConnection">'', esc (loc ''welcomePage.newConnection'' ''New connection''), ''</a></li>
													<li role="none"><a class="ads-welcome-page-link" role="menuitem" tabIndex="-1" class="move" href="command:workbench.action.files.newUntitledFile">'', esc (loc ''welcomePage.newQuery'' ''New query''), ''</a></li>
													<li role="none"><a class="ads-welcome-page-link" role="menuitem" tabIndex="-1" class="move" href="command:notebook.command.new">'', esc (loc ''welcomePage.newNotebook'' ''New notebook''), ''</a></li>
													<li role="none" id="dropdown-mac-only"><a class="ads-welcome-page-link" role="menuitem" tabIndex="-1" class="move mac-only" href="command:workbench.action.files.openLocalFileFolder">'', esc (loc ''welcomePage.openFileMac'' ''Open file''), ''</a></li>
													<li role="none" id="dropdown-windows-linux-only"><a class="ads-welcome-page-link" role="menuitem" tabIndex="-1" class="move windows-only linux-only" href="command:workbench.action.files.openFile">'', esc (loc ''welcomePage.openFileLinuxPC'' ''Open file''), ''</a></li>
												</ul>
											</nav>
										</div>
										<a class="windows-only linux-only btn btn-secondary"
											href="command:workbench.action.files.openFile">
											'', esc (loc ''welcomePage.openFileLinuxPC'' ''Open file''), ''
										</a>
										<a class="mac-only btn btn-secondary" href="command:workbench.action.files.openLocalFileFolder">'', esc (loc ''welcomePage.openFileMac'' ''Open file''), ''</a>
									</div>
								</div>
							</div>
						</div>
					</div>
					<div class="row header-bottom-nav-tiles ads-grid">
						<div class="col">
							<a class="header-bottom-nav-tile-link ads-welcome-page-link" href="command:registeredServers.addConnection">
								<div class="header-bottom-nav-tile tile tile-connection">
									<h3>'', esc (loc ''welcomePage.createConnection'' ''Create a connection''), ''</h3>
									<p>'', esc (loc ''welcomePage.createConnectionBody'' ''Connect to a database instance through the connection dialog.''), ''</p>
									<div class="icon connection"></div>
								</div>
							</a>
						</div>
						<div class="col">
							<a class="header-bottom-nav-tile-link ads-welcome-page-link"
								href="command:workbench.action.files.newUntitledFile">
								<div class="header-bottom-nav-tile tile tile-query">
									<h3>'', esc (loc ''welcomePage.runQuery'' ''Run a query''), ''</h3>
									<p>'', esc (loc ''welcomePage.runQueryBody'' ''Interact with data through a query editor.''), ''</p>
									<div class="icon query"></div>
								</div>
							</a>
						</div>
						<div class="col">
							<a class="header-bottom-nav-tile-link ads-welcome-page-link" href="command:notebook.command.new">
								<div class="header-bottom-nav-tile tile tile-notebook">
									<h3>'', esc (loc ''welcomePage.createNotebook'' ''Create a notebook''), ''</h3>
									<p>'', esc (loc ''welcomePage.createNotebookBody'' ''Build a new notebook using a native notebook editor.''), ''</p>
									<div class="icon notebook"></div>
								</div>
							</a>
						</div>
						<div class="col">
							<a class="header-bottom-nav-tile-link ads-welcome-page-link" href="command:azdata.resource.deploy">
								<div class="header-bottom-nav-tile tile tile-server">
									<h3>'', esc (loc ''welcomePage.deployServer'' ''Deploy a server''), ''</h3>
									<p>'', esc (loc ''welcomePage.deployServerBody'' ''Create a new instance of SQL Server on the platform of your choice.''), ''</p>
									<div class="icon server"></div>
								</div>
							</a>
						</div>
					</div>
				</div>
			</div>
			<div class="ads-homepage-section middle-section content row ads-grid">
				<div class="resources-container">
					<h2>'', esc (loc ''welcomePage.resources'' ''Resources''), ''</h2>
					<div class="tabs">
						<input class="input" name="tabs" type="radio" id="tab-1" checked="checked" />
						<label class="label" for="tab-1" tabIndex="0">'', esc (loc ''welcomePage.history'' ''History''), ''</label>
						<div class="panel">
							<div class="recent history">
								<div class="flex list-header-container">
									<i class="icon-document themed-icon"></i>
									<h4 class="list-header">'', esc (loc ''welcomePage.name'' ''Name''), ''</h4>
									<h4 class="list-header-last-opened">'', esc (loc ''welcomePage.lastOpened'' ''Last Opened''), ''</h4>
								</div>
								<ul class="list">
									<!-- Filled programmatically -->
								</ul>
								<p class="none detail">No recent folders</p>
								<ul class="moreRecent-list">
									<li class="moreRecent">
										<a class="ads-welcome-page-link" href="command:workbench.action.openRecent">'', esc (loc ''welcomePage.moreRecent'' ''Show more''), ''
											<i class="icon-arrow-down-dark"></i>
										</a>
									</li>
								</ul>
							</div>
						</div>
					</div>
					<p class="showOnStartup"><input type="checkbox" id="showOnStartup" class="checkbox">
						<label for="showOnStartup">'', esc (loc ''welcomePage.showOnStartup'' ''Show welcome page on startup''), ''</label>
					</p>
				</div>
				<div class="getting-started-container">
					<div class="links">
						<h2>'', esc (loc ''welcomePage.usefuLinks'' ''Useful Links''), ''</h2>
						<div class="link-header">
							<a class="link ads-welcome-page-link"
								href="https://aka.ms/get-started-azdata">'', esc (loc ''welcomePage.gettingStarted'' ''Getting Started''), ''<span class="icon-link themed-icon-alt"></a>
						</div>
						<p>
						'', esc (loc ''welcomePage.gettingStartedBody'' ''Discover the capabilities offered by Azure Data Studio and learn how to make the most of them.''), ''
						</p>
						<div class="link-header">
							<a class="link ads-welcome-page-link"
								href="command:workbench.action.openDocumentationUrl">'', esc (loc ''welcomePage.documentation'' ''Documentation''), ''<span class="icon-link themed-icon-alt"</a></a>
						</div>
						<p>'', esc (loc ''welcomePage.documentationBody'' ''Visit the documentation center for quickstarts, how-to guides, and references for PowerShell, APIs, etc.''), ''
						</p>


						<div class="videos-container row">
							<h2>Videos</h2>
							<div class="flex flex-container-video">
								<div class="videos-container-video">
									<a href="https://www.youtube.com/watch?v=Orv7fptVoUA" class="video overview ads-welcome-page-link">
									<img src="'', toUrl ''./../../media/video_overview.png'', ''" class="video-overview" id="video-overview" />
										<h4>'', esc (loc ''welcomePage.videoDescriptionOverview'' ''Overview of Azure Data Studio''), ''</h4>
									</a>

								</div>
								<div class="videos-container-video">
									<a href="https://www.youtube.com/watch?v=Nt4kIHQ0IOc" class="video overview ads-welcome-page-link">
									<img src="'', toUrl ''./../../media/video_introduction.png'', ''" class="video-introduction" id="video-introduction" />
										<h4>'', esc (loc ''welcomePage.videoDescriptionIntroduction'' ''Introduction to Azure Data Studio Notebooks | Data Exposed''), ''</h4>
									</a>
								</div>
							</div>
						</div>
					</div>
				</div>
			</div>
			<div class="ads-homepage-section content extensions">
				<div class="flex flex-j-between">
					<h2>Extend your data studio</h2>
					<a class="link-show-all flex ads-welcome-page-link" href="command:extensions.listView.focus">'', esc (loc ''welcomePage.showAll'' ''Show All''), '' <span class="icon-arrow-right"></span></a>
				</div>
				<div class="row ads-grid grip-gap-50">
					<div
						class="ads-grid tile no-hover extension-pack">
						<div class="extension-pack-description">
							<div class="extension-pack-header"></div>
							<p class="extension-pack-body"></p>
						</div>
						<div class="extension-pack-extensions flex flex-d-column flex-j-evenly flex-a-start">
							<div class="extension-pack-extension-list flex flex-d-column flex-j-evenly flex-a-start"></div>
							<div class="flex flex-j-end extension-pack-btn-container flex flex-j-between flex-a-center"">
							<div class="extensionPack" href="#"></div>
							<a class="a-self-end link-learn-more flex flex-a-center ads-welcome-page-link" href="command:azdata.extension.open?%7B%22id%22%3A%22microsoft.admin-pack%22%7D">'', esc (loc ''welcomePage.learnMore'' ''Learn more ''), ''<span class="icon-arrow-right"></span></a>
						</div>
					</div>
				</div>
				<div class="extension-list flex flex-d-column">
					<!-- Dynamically populated -->
				</div>
				<br /><br /><br />
			</div>
		</div>
	</div>
</div>
'']\<close>

section \<open>Concrete hosts\<close>

definition demo_client :: client_host where
  "demo_client =
     \<lparr>context_asAbsolutePath = (\<lambda>p. Inr (''/ext/'' @ p)),
      newWorker = (\<lambda>url. Inl (Error ''Worker is not defined'')),
      startClient = (\<lambda>w. None)\<rparr>"

fun demo_join :: "string list \<Rightarrow> string" where
  "demo_join [] = ''.''"
| "demo_join [p] = p"
| "demo_join (p # ps) = p @ ''/'' @ demo_join ps"

definition demo_dirname :: "string \<Rightarrow> string" where
  "demo_dirname p = rev (drop 1 (dropWhile (\<lambda>c. c \<noteq> CHR ''/'') (rev p)))"

definition demo_sections :: "jsval list" where
  "demo_sections =
     [JObj [(''title'', JStr ''Intro''), (''url'', JStr ''intro'')],
      JObj [(''title'', JStr ''Notes''), (''url'', JStr ''notes'')],
      JObj [(''title'', JStr ''Site''), (''url'', JStr ''https://example.org''), (''external'', JBool True)],
      JObj [(''title'', JStr ''Gone''), (''url'', JStr ''gone'')],
      JObj [(''title'', JStr ''Part'')]]"

definition demo_toc :: jsval where
  "demo_toc = JArr demo_sections"

text \<open>
  A workspace folder \<^verbatim>\<open>/b\<close> holding one book with a notebook \<^verbatim>\<open>intro.ipynb\<close> and a
  page \<^verbatim>\<open>notes.md\<close>; the configured search depth is unset.
\<close>

definition demo_host :: host where
  "demo_host =
     \<lparr>existsSync = (\<lambda>p. p = ''/b/content/intro.ipynb'' \<or> p = ''/b/content/notes.md''),
      readFileSync = (\<lambda>p. if p = ''/b/_config.yml'' then Inr ''title: Demo''
                          else if p = ''/b/_data/toc.yml'' then Inr ''toc''
                          else Inl (Error ''ENOENT'')),
      safeLoad = (\<lambda>t. if t = ''title: Demo'' then Inr (JObj [(''title'', JStr ''Demo'')])
                      else if t = ''toc'' then Inr demo_toc
                      else Inl (Error ''bad yaml'')),
      glob = (\<lambda>pat d. if pat = ''/b/**/_data/toc.yml'' then Inr [''/b/_data/toc.yml''] else Inr []),
      path_join = demo_join,
      path_dirname = demo_dirname,
      asAbsolutePath = (\<lambda>p. ''/ext/'' @ p),
      localize = (\<lambda>key message args. message),
      openTextDocument = (\<lambda>p. if p = ''/b/content/intro.ipynb'' then Inr p else Inl (Error ''ENOENT'')),
      showTextDocument = (\<lambda>d. None),
      executeCommand = (\<lambda>c a. None),
      openExternal = (\<lambda>u. None),
      uriFile = (\<lambda>p. ''file://'' @ p),
      uriParse = (\<lambda>r. if r = [] then Inl (Error ''UriError'') else Inr r),
      configMaxBookSearchDepth = None,
      workspaceFolders = Some [''/b''],
      itemSections = (\<lambda>it. case page it of JArr xs \<Rightarrow> Some xs | _ \<Rightarrow> None),
      previousUri = (\<lambda>it. None),
      nextUri = (\<lambda>it. None)\<rparr>"

text \<open>The same host after the folder has been closed and its files removed.\<close>

definition closed_host :: host where
  "closed_host = demo_host\<lparr>existsSync := (\<lambda>p. False), glob := (\<lambda>pat d. Inr []),
     readFileSync := (\<lambda>p. Inl (Error ''ENOENT'')), workspaceFolders := Some []\<rparr>"

text \<open>
  A bundle that fills \<^verbatim>\<open>{0}\<close> and \<^verbatim>\<open>{1}\<close> of a message with its arguments.
\<close>

definition argText :: "jsval \<Rightarrow> string" where
  "argText v = (case v of JStr text \<Rightarrow> text | _ \<Rightarrow> ''[value]'')"

fun demo_format :: "string \<Rightarrow> string list \<Rightarrow> string" where
  "demo_format (c # d # e # rest) args =
     (if c = CHR ''{'' \<and> e = CHR ''}'' \<and> d = CHR ''0'' \<and> 0 < length args
      then args ! 0 @ demo_format rest args
      else if c = CHR ''{'' \<and> e = CHR ''}'' \<and> d = CHR ''1'' \<and> 1 < length args
      then args ! 1 @ demo_format rest args
      else c # demo_format (d # e # rest) args)"
| "demo_format (c # rest) args = c # demo_format rest args"
| "demo_format [] args = []"

definition format_host :: host where
  "format_host = demo_host\<lparr>localize := (\<lambda>key message args. demo_format message (map argText args))\<rparr>"

text \<open>
  Two workspace folders: \<^verbatim>\<open>/a\<close>, whose book has lost its \<^verbatim>\<open>_config.yml\<close>, and
  \<^verbatim>\<open>/b\<close> as before. \<^verbatim>\<open>Uri.parse\<close> rejects a scheme with a space in it.
\<close>

definition two_books_host :: host where
  "two_books_host = format_host
     \<lparr>glob := (\<lambda>pat d. if pat = ''/a/**/_data/toc.yml'' then Inr [''/a/_data/toc.yml'']
                       else if pat = ''/b/**/_data/toc.yml'' then Inr [''/b/_data/toc.yml'']
                       else Inr []),
      uriParse := (\<lambda>r. if r = ''my docs://page''
                        then Inl (Error ''[UriError]: Scheme contains illegal characters.'')
                        else Inr r)\<rparr>"

text \<open>
  The book of \<^verbatim>\<open>/b\<close> with a second notebook \<^verbatim>\<open>gone.ipynb\<close>, and the neighbours the
  item class computes: \<^verbatim>\<open>intro\<close> is followed by \<^verbatim>\<open>notes\<close>, which precedes \<^verbatim>\<open>gone\<close>;
  the last item's \<^verbatim>\<open>nextUri\<close> is the empty string.
\<close>

definition nav_host :: host where
  "nav_host = demo_host
     \<lparr>existsSync := (\<lambda>p. p = ''/b/content/intro.ipynb'' \<or> p = ''/b/content/notes.md''
                          \<or> p = ''/b/content/gone.ipynb''),
      previousUri := (\<lambda>it. if page it = JObj [(''title'', JStr ''Gone''), (''url'', JStr ''gone'')]
                            then Some ''/b/content/notes.md'' else None),
      nextUri := (\<lambda>it. if page it = JObj [(''title'', JStr ''Intro''), (''url'', JStr ''intro'')]
                        then Some ''/b/content/notes.md''
                        else if page it = JObj [(''title'', JStr ''Gone''), (''url'', JStr ''gone'')]
                        then Some [] else None)\<rparr>"

text \<open>
  For the examples: an escape that writes the characters \<^verbatim>\<open><\<close>, \<^verbatim>\<open>>\<close> and \<^verbatim>\<open>&\<close> as
  entities, and a bundle with one translated message.
\<close>

fun demo_escape :: "string \<Rightarrow> string" where
  "demo_escape [] = []"
| "demo_escape (c # cs) =
     (if c = CHR ''<'' then ''&lt;'' else if c = CHR ''>'' then ''&gt;''
      else if c = CHR ''&'' then ''&amp;'' else [c]) @ demo_escape cs"

definition demo_localize :: "string \<Rightarrow> string \<Rightarrow> string" where
  "demo_localize key message = (if key = ''welcomePage.new'' then ''New & <improved>'' else message)"

section \<open>Specification-side definitions\<close>

text \<open>What one run of the markdown preview closure adds to the trace.\<close>

definition previewEffect :: "host \<Rightarrow> string \<Rightarrow> effect" where
  "previewEffect h res =
     (case executeCommand h ''markdown.showPreview'' [AUri (uriFile h res)] of
        None \<Rightarrow> ExecuteCommand ''markdown.showPreview'' [AUri (uriFile h res)]
      | Some e \<Rightarrow> ShowErrorMessage
            (localize h ''openMarkdownError'' ''Open file {0} failed: {1}'' [JStr res, exn_arg e]))"

text \<open>Every pending timer is the one whose handle the provider holds.\<close>

definition pendingHeld :: "state \<Rightarrow> bool" where
  "pendingHeld s =
     (case timers s of
        [] \<Rightarrow> True
      | [(t, r)] \<Rightarrow> throttleTimer s = Some t
      | _ \<Rightarrow> False)"

text \<open>
  The search depth as the specification words it: an undefined or negative setting
  gives 5, the setting 0 gives no limit, any other setting is used as it is.
\<close>

definition specDepth :: "int option \<Rightarrow> int option" where
  "specDepth d =
     (case d of
        None \<Rightarrow> Some 5
      | Some n \<Rightarrow> (if n < 0 then Some 5 else if n = 0 then None else Some n))"

text \<open>The paths found under the folders, in order, when every glob resolves.\<close>

definition collected :: "host \<Rightarrow> string list \<Rightarrow> string list" where
  "collected h folders =
     concat (map (\<lambda>w. case glob h (tocPattern h w) (maxDepth (configMaxBookSearchDepth h)) of
                         Inr found \<Rightarrow> found | Inl e \<Rightarrow> []) folders)"

definition globsResolve :: "host \<Rightarrow> string list \<Rightarrow> bool" where
  "globsResolve h folders =
     list_all (\<lambda>w. case glob h (tocPattern h w) (maxDepth (configMaxBookSearchDepth h)) of
                      Inr found \<Rightarrow> True | Inl e \<Rightarrow> False) folders"

text \<open>Reading a property of an entry that is known to be an object.\<close>

definition propOf :: "jsval \<Rightarrow> string \<Rightarrow> jsval" where
  "propOf v k = (case member v k of Inr w \<Rightarrow> w | Inl e \<Rightarrow> JUndefined)"

definition urlText :: "jsval \<Rightarrow> string" where
  "urlText sec = (case propOf sec ''url'' of JStr u \<Rightarrow> u | _ \<Rightarrow> [])"

text \<open>
  An entry \<^verbatim>\<open>getSections\<close> can process: not \<^verbatim>\<open>null\<close> or \<^verbatim>\<open>undefined\<close>, and its
  \<^verbatim>\<open>url\<close>, when truthy and not marked external, is a string.
\<close>

definition entryOk :: "jsval \<Rightarrow> bool" where
  "entryOk sec =
     (sec \<noteq> JUndefined \<and> sec \<noteq> JNull \<and>
      (truthy (propOf sec ''url'') \<and> \<not> truthy (propOf sec ''external'')
         \<longrightarrow> (case propOf sec ''url'' of JStr u \<Rightarrow> True | _ \<Rightarrow> False)))"

text \<open>
  The kind of item the specification assigns to an entry with a truthy \<^verbatim>\<open>url\<close>:
  external link first, then notebook, then markdown page, else none (a missing file).
\<close>

definition specKind :: "host \<Rightarrow> string \<Rightarrow> jsval \<Rightarrow> BookTreeItemType option" where
  "specKind h root_dir sec =
     (if truthy (propOf sec ''external'') then Some ExternalLink
      else if existsSync h (path_join h [root_dir, ''content'', urlText sec @ ''.ipynb'']) then Some Notebook
      else if existsSync h (path_join h [root_dir, ''content'', urlText sec @ ''.md'']) then Some Markdown
      else None)"

text \<open>The icon pair the provider passes for each kind of item.\<close>

fun iconsOf :: "BookTreeItemType \<Rightarrow> string \<times> string" where
  "iconsOf Book = (''resources/light/book.svg'', ''resources/dark/book_inverse.svg'')"
| "iconsOf Notebook = (''resources/light/notebook.svg'', ''resources/dark/notebook_inverse.svg'')"
| "iconsOf Markdown = (''resources/light/markdown.svg'', ''resources/dark/markdown_inverse.svg'')"
| "iconsOf ExternalLink = (''resources/light/link.svg'', ''resources/dark/link_inverse.svg'')"

definition entryItem :: "host \<Rightarrow> jsval list \<Rightarrow> string \<Rightarrow> jsval \<Rightarrow> BookTreeItemType \<Rightarrow> book_item" where
  "entryItem h toc root_dir sec ty =
     sectionItem h toc root_dir sec (propOf sec ''title'') ty (fst (iconsOf ty)) (snd (iconsOf ty))"

definition specItems :: "host \<Rightarrow> jsval list \<Rightarrow> string \<Rightarrow> jsval \<Rightarrow> book_item list" where
  "specItems h toc root_dir sec =
     (if truthy (propOf sec ''url'')
      then (case specKind h root_dir sec of Some ty \<Rightarrow> [entryItem h toc root_dir sec ty] | None \<Rightarrow> [])
      else [])"

definition specMessages :: "host \<Rightarrow> string \<Rightarrow> jsval \<Rightarrow> effect list" where
  "specMessages h root_dir sec =
     (if truthy (propOf sec ''url'') \<and> specKind h root_dir sec = None
      then [ShowErrorMessage (localize h ''missingFileError'' ''Missing file : {0}'' [propOf sec ''title''])]
      else [])"

text \<open>The key under which a notebook item is cached: the path of its \<^verbatim>\<open>.ipynb\<close> file.\<close>

definition notebookPath :: "host \<Rightarrow> book_item \<Rightarrow> string" where
  "notebookPath h it = path_join h [root it, ''content'', urlText (page it) @ ''.ipynb'']"

definition cacheAll :: "host \<Rightarrow> book_item list \<Rightarrow> (string \<rightharpoonup> book_item) \<Rightarrow> (string \<rightharpoonup> book_item)" where
  "cacheAll h its m = fold (\<lambda>it m'. m'(notebookPath h it \<mapsto> it)) (filter (\<lambda>it. itemType it = Notebook) its) m"

text \<open>What processing one entry does to the state: notebooks cached, a message shown.\<close>

definition entryState :: "host \<Rightarrow> jsval list \<Rightarrow> string \<Rightarrow> jsval \<Rightarrow> state \<Rightarrow> state" where
  "entryState h toc rt sec s =
     s\<lparr>allNotebooks := cacheAll h (specItems h toc rt sec) (allNotebooks s),
       trace := trace s @ specMessages h rt sec\<rparr>"

text \<open>Reading a YAML file: the read, then the parse.\<close>

definition readYaml :: "host \<Rightarrow> string \<Rightarrow> exn + jsval" where
  "readYaml h path = (case readFileSync h path of Inl e \<Rightarrow> Inl e | Inr text \<Rightarrow> safeLoad h text)"

text \<open>
  The books \<^verbatim>\<open>getBooks\<close> is to return, and the messages it is to show, path by path.
  A book's root is two directories above its \<^verbatim>\<open>toc.yml\<close>. The book is built when both
  \<^verbatim>\<open>_config.yml\<close> and \<^verbatim>\<open>toc.yml\<close> read and parse, the configuration has a title to
  read and the table of contents flattens; otherwise the first of these failures is the
  one reported.
\<close>

definition bookRoot :: "host \<Rightarrow> string \<Rightarrow> string" where
  "bookRoot h tocPath = path_dirname h (path_dirname h tocPath)"

definition specBook :: "host \<Rightarrow> string \<Rightarrow> exn + book_item" where
  "specBook h tocPath =
     (case readYaml h (path_join h [bookRoot h tocPath, ''_config.yml'']) of
        Inl e \<Rightarrow> Inl e
      | Inr config \<Rightarrow>
     (case readYaml h tocPath of
        Inl e \<Rightarrow> Inl e
      | Inr toc \<Rightarrow>
     (case member config ''title'' of
        Inl e \<Rightarrow> Inl e
      | Inr t \<Rightarrow>
     (case flattenArray toc of
        Inl e \<Rightarrow> Inl e
      | Inr flat \<Rightarrow>
          Inr \<lparr>title = t, root = bookRoot h tocPath, tableOfContents = flat, page = toc,
               itemType = Book,
               iconLight = asAbsolutePath h (fst (iconsOf Book)),
               iconDark = asAbsolutePath h (snd (iconsOf Book))\<rparr>))))"

definition loadedBooks :: "host \<Rightarrow> string list \<Rightarrow> book_item list" where
  "loadedBooks h paths =
     concat (map (\<lambda>p. case specBook h p of Inr b \<Rightarrow> [b] | Inl e \<Rightarrow> []) paths)"

definition bookMessages :: "host \<Rightarrow> string list \<Rightarrow> effect list" where
  "bookMessages h paths =
     concat (map (\<lambda>p. case specBook h p of
                         Inr b \<Rightarrow> []
                       | Inl e \<Rightarrow> [ShowErrorMessage
                           (localize h ''openConfigFileError'' ''Open file {0} failed: {1}''
                              [JStr (path_join h [bookRoot h p, ''_config.yml'']), exn_arg e])]) paths)"

text \<open>
  The interpolations of the template, in the order they occur: a localized message
  (key and default text) that is to go through \<^verbatim>\<open>escape\<close>, or an image URL.
\<close>

datatype hole = Message string string | Image string

definition welcomeHoles :: "hole list" where
  "welcomeHoles =
     [Message ''welcomePage.previewHeader''
        ''This page is in preview'',
      Message ''welcomePage.previewBody''
        ''Preview features introduce new functionalities that are on track to becoming a permanent part the product. They are stable, but need additional accessibility improvements. We welcome your early feedback while they are under development.'',
      Message ''welcomePage.previewHeader''
        ''This page is in preview'',
      Message ''welcomePage.previewBody''
        ''Preview features introduce new functionalities that are on track to becoming a permanent part the product. They are stable, but need additional accessibility improvements. We welcome your early feedback while they are under development.'',
      Message ''welcomePage.new''
        ''New'',
      Message ''welcomePage.newConnection''
        ''New connection'',
      Message ''welcomePage.newQuery''
        ''New query'',
      Message ''welcomePage.newNotebook''
        ''New notebook'',
      Message ''welcomePage.openFileMac''
        ''Open file'',
      Message ''welcomePage.openFileLinuxPC''
        ''Open file'',
      Message ''welcomePage.openFileLinuxPC''
        ''Open file'',
      Message ''welcomePage.openFileMac''
        ''Open file'',
      Message ''welcomePage.createConnection''
        ''Create a connection'',
      Message ''welcomePage.createConnectionBody''
        ''Connect to a database instance through the connection dialog.'',
      Message ''welcomePage.runQuery''
        ''Run a query'',
      Message ''welcomePage.runQueryBody''
        ''Interact with data through a query editor.'',
      Message ''welcomePage.createNotebook''
        ''Create a notebook'',
      Message ''welcomePage.createNotebookBody''
        ''Build a new notebook using a native notebook editor.'',
      Message ''welcomePage.deployServer''
        ''Deploy a server'',
      Message ''welcomePage.deployServerBody''
        ''Create a new instance of SQL Server on the platform of your choice.'',
      Message ''welcomePage.resources''
        ''Resources'',
      Message ''welcomePage.history''
        ''History'',
      Message ''welcomePage.name''
        ''Name'',
      Message ''welcomePage.lastOpened''
        ''Last Opened'',
      Message ''welcomePage.moreRecent''
        ''Show more'',
      Message ''welcomePage.showOnStartup''
        ''Show welcome page on startup'',
      Message ''welcomePage.usefuLinks''
        ''Useful Links'',
      Message ''welcomePage.gettingStarted''
        ''Getting Started'',
      Message ''welcomePage.gettingStartedBody''
        ''Discover the capabilities offered by Azure Data Studio and learn how to make the most of them.'',
      Message ''welcomePage.documentation''
        ''Documentation'',
      Message ''welcomePage.documentationBody''
        ''Visit the documentation center for quickstarts, how-to guides, and references for PowerShell, APIs, etc.'',
      Image ''./../../media/video_overview.png'',
      Message ''welcomePage.videoDescriptionOverview''
        ''Overview of Azure Data Studio'',
      Image ''./../../media/video_introduction.png'',
      Message ''welcomePage.videoDescriptionIntroduction''
        ''Introduction to Azure Data Studio Notebooks | Data Exposed'',
      Message ''welcomePage.showAll''
        ''Show All'',
      Message ''welcomePage.learnMore''
        ''Learn more '']"

fun holeValue :: "(string \<Rightarrow> string \<Rightarrow> string) \<Rightarrow> (string \<Rightarrow> string) \<Rightarrow> (string \<Rightarrow> string) \<Rightarrow> hole \<Rightarrow> string" where
  "holeValue loc esc toUrl (Message key message) = esc (loc key message)"
| "holeValue loc esc toUrl (Image path) = toUrl path"

text \<open>A template: pieces of fixed text with one value between each two neighbours.\<close>

fun weave :: "string list \<Rightarrow> string list \<Rightarrow> string" where
  "weave (c # cs) (v # vs) = c @ v @ weave cs vs"
| "weave cs [] = concat cs"
| "weave [] vs = []"


section \<open>Frame lemmas\<close>

text \<open>Which fields of the state each operation leaves alone.\<close>

lemma emit_simps [simp]:
  "tableOfContentPaths (emit e s) = tableOfContentPaths s"
  "allNotebooks (emit e s) = allNotebooks s"
  "throttleTimer (emit e s) = throttleTimer s"
  "resource (emit e s) = resource s"
  "timers (emit e s) = timers s"
  "nextHandle (emit e s) = nextHandle s"
  "trace (emit e s) = trace s @ [e]"
  by (simp_all add: emit_def)

lemma markdownAction_simps [simp]:
  "tableOfContentPaths (markdownAction h r s) = tableOfContentPaths s"
  "allNotebooks (markdownAction h r s) = allNotebooks s"
  "throttleTimer (markdownAction h r s) = throttleTimer s"
  "resource (markdownAction h r s) = resource s"
  "timers (markdownAction h r s) = timers s"
  "nextHandle (markdownAction h r s) = nextHandle s"
  by (simp_all add: markdownAction_def split: option.splits)

lemma globLoop_keeps:
  "allNotebooks (snd (globLoop h d fs s)) = allNotebooks s \<and>
   throttleTimer (snd (globLoop h d fs s)) = throttleTimer s \<and>
   resource (snd (globLoop h d fs s)) = resource s \<and>
   timers (snd (globLoop h d fs s)) = timers s \<and>
   nextHandle (snd (globLoop h d fs s)) = nextHandle s \<and>
   trace (snd (globLoop h d fs s)) = trace s"
  by (induction fs arbitrary: s) (auto split: sum.splits)

lemma getTableOfContentFiles_keeps:
  "allNotebooks (snd (getTableOfContentFiles h fs s)) = allNotebooks s \<and>
   throttleTimer (snd (getTableOfContentFiles h fs s)) = throttleTimer s \<and>
   resource (snd (getTableOfContentFiles h fs s)) = resource s \<and>
   timers (snd (getTableOfContentFiles h fs s)) = timers s \<and>
   nextHandle (snd (getTableOfContentFiles h fs s)) = nextHandle s"
  using globLoop_keeps [of h "maxDepth (configMaxBookSearchDepth h)" fs s]
  by (auto simp: getTableOfContentFiles_def Let_def split: prod.splits option.splits)

lemma refresh_keeps:
  "allNotebooks (snd (refresh h s)) = allNotebooks s \<and>
   throttleTimer (snd (refresh h s)) = throttleTimer s \<and>
   resource (snd (refresh h s)) = resource s \<and>
   timers (snd (refresh h s)) = timers s \<and>
   nextHandle (snd (refresh h s)) = nextHandle s"
proof (cases "workspaceFolders h")
  case None
  then show ?thesis by (simp add: refresh_def)
next
  case (Some fs)
  then show ?thesis
    using getTableOfContentFiles_keeps [of h fs "s\<lparr>tableOfContentPaths := []\<rparr>"]
    by (auto simp: refresh_def Let_def split: prod.splits sum.splits)
qed

lemma openNotebook_keeps:
  "allNotebooks (snd (openNotebook h r s)) = allNotebooks s \<and>
   throttleTimer (snd (openNotebook h r s)) = throttleTimer s \<and>
   resource (snd (openNotebook h r s)) = resource s \<and>
   timers (snd (openNotebook h r s)) = timers s \<and>
   nextHandle (snd (openNotebook h r s)) = nextHandle s"
  by (simp add: openNotebook_def Let_def split: sum.splits option.splits)

lemma openExternalLink_keeps:
  "allNotebooks (openExternalLink h r s) = allNotebooks s \<and>
   throttleTimer (openExternalLink h r s) = throttleTimer s \<and>
   resource (openExternalLink h r s) = resource s \<and>
   timers (openExternalLink h r s) = timers s \<and>
   nextHandle (openExternalLink h r s) = nextHandle s"
  by (simp add: openExternalLink_def Let_def split: sum.splits option.splits)

lemma booksLoop_keeps:
  "allNotebooks (snd (booksLoop h ps bs s)) = allNotebooks s \<and>
   throttleTimer (snd (booksLoop h ps bs s)) = throttleTimer s \<and>
   resource (snd (booksLoop h ps bs s)) = resource s \<and>
   timers (snd (booksLoop h ps bs s)) = timers s \<and>
   nextHandle (snd (booksLoop h ps bs s)) = nextHandle s \<and>
   tableOfContentPaths (snd (booksLoop h ps bs s)) = tableOfContentPaths s"
  by (induction ps arbitrary: bs s) (auto simp: Let_def split: sum.splits)

lemma getBooks_keeps:
  "allNotebooks (snd (getBooks h s)) = allNotebooks s \<and>
   throttleTimer (snd (getBooks h s)) = throttleTimer s \<and>
   resource (snd (getBooks h s)) = resource s \<and>
   timers (snd (getBooks h s)) = timers s \<and>
   nextHandle (snd (getBooks h s)) = nextHandle s"
  using booksLoop_keeps [of h "tableOfContentPaths s" "[]" s]
  by (auto simp: getBooks_def split: prod.splits)

lemma sectionsLoop_keeps:
  "throttleTimer (snd (sectionsLoop h toc rt secs nbs s)) = throttleTimer s \<and>
   resource (snd (sectionsLoop h toc rt secs nbs s)) = resource s \<and>
   timers (snd (sectionsLoop h toc rt secs nbs s)) = timers s \<and>
   nextHandle (snd (sectionsLoop h toc rt secs nbs s)) = nextHandle s \<and>
   tableOfContentPaths (snd (sectionsLoop h toc rt secs nbs s)) = tableOfContentPaths s"
  by (induction secs arbitrary: nbs s) (auto simp: Let_def split: sum.splits jsval.splits)

lemma sectionsLoop_dom:
  "k \<in> dom (allNotebooks s) \<Longrightarrow> k \<in> dom (allNotebooks (snd (sectionsLoop h toc rt secs nbs s)))"
proof (induction secs arbitrary: nbs s)
  case Nil
  then show ?case by simp
next
  case (Cons sec rest)
  have upd: "k \<in> dom (allNotebooks (s\<lparr>allNotebooks := (allNotebooks s)(p \<mapsto> nb)\<rparr>))" for p nb
    using Cons.prems by auto
  have msg: "k \<in> dom (allNotebooks (emit e s))" for e
    using Cons.prems by simp
  show ?case
    using Cons.IH [OF Cons.prems] Cons.IH [OF upd] Cons.IH [OF msg] Cons.prems
    by (simp add: Let_def split: sum.splits jsval.splits)
qed

lemma getChildren_keeps:
  "throttleTimer (snd (getChildren h el s)) = throttleTimer s \<and>
   timers (snd (getChildren h el s)) = timers s"
  using getBooks_keeps [of h s] sectionsLoop_keeps
  by (simp add: getChildren_def getSections_def split: option.splits)

lemma getChildren_dom:
  "k \<in> dom (allNotebooks s) \<Longrightarrow> k \<in> dom (allNotebooks (snd (getChildren h el s)))"
  using getBooks_keeps [of h s] sectionsLoop_dom
  by (simp add: getChildren_def getSections_def split: option.splits)


section \<open>The debounce\<close>

lemma pendingHeld_frame:
  "timers s' = timers s \<Longrightarrow> throttleTimer s' = throttleTimer s \<Longrightarrow> pendingHeld s \<Longrightarrow> pendingHeld s'"
  by (simp add: pendingHeld_def split: list.splits prod.splits)

lemma pendingHeld_cases:
  "pendingHeld s \<Longrightarrow> timers s = [] \<or> (\<exists>t r. timers s = [(t, r)] \<and> throttleTimer s = Some t)"
  by (auto simp: pendingHeld_def split: list.splits)

lemma runThrottledAction_change:
  "pendingHeld s \<Longrightarrow> Some r \<noteq> resource s \<Longrightarrow>
   runThrottledAction h r s =
     markdownAction h r (s\<lparr>timers := [], throttleTimer := None, resource := Some r\<rparr>)"
  by (cases s; cases "throttleTimer s")
    (auto simp: runThrottledAction_def Let_def pendingHeld_def split: list.splits)

lemma runThrottledAction_idle:
  "Some r = resource s \<Longrightarrow> throttleTimer s = None \<Longrightarrow>
   runThrottledAction h r s =
     s\<lparr>timers := timers s @ [(nextHandle s, r)], nextHandle := Suc (nextHandle s),
       throttleTimer := Some (nextHandle s)\<rparr>"
  by (cases s) (auto simp: runThrottledAction_def Let_def setTimeout_def)

lemma runThrottledAction_held:
  "Some r = resource s \<Longrightarrow> throttleTimer s = Some t \<Longrightarrow> runThrottledAction h r s = s"
  by (cases s) (auto simp: runThrottledAction_def Let_def)

lemma runThrottledAction_pendingHeld:
  assumes "pendingHeld s"
  shows "pendingHeld (runThrottledAction h r s)"
proof (cases "Some r = resource s")
  case False
  then show ?thesis
    using assms by (simp add: runThrottledAction_change pendingHeld_def)
next
  case True
  show ?thesis
  proof (cases "throttleTimer s")
    case None
    then have "timers s = []" using assms by (auto dest: pendingHeld_cases)
    then show ?thesis using True None
      by (simp add: runThrottledAction_idle pendingHeld_def)
  next
    case (Some t)
    then show ?thesis using True assms by (simp add: runThrottledAction_held)
  qed
qed

lemma timerFires_pendingHeld:
  assumes "pendingHeld s"
  shows "pendingHeld (timerFires h t s)"
  using pendingHeld_cases [OF assms]
  by (auto simp: timerFires_def pendingHeld_def split: option.splits)

lemma perform_keeps:
  assumes "\<forall>r. p \<noteq> OpenMarkdown r" and "\<forall>t. p \<noteq> TimerFires t"
  shows "timers (perform h p s) = timers s \<and> throttleTimer (perform h p s) = throttleTimer s"
  using assms
  by (cases p)
    (simp_all add: refresh_keeps getTableOfContentFiles_keeps openNotebook_keeps
      openExternalLink_keeps getChildren_keeps getBooks_keeps dispose_def)

lemma perform_pendingHeld:
  assumes "pendingHeld s"
  shows "pendingHeld (perform h p s)"
proof -
  consider r where "p = OpenMarkdown r" | t where "p = TimerFires t"
    | "\<forall>r. p \<noteq> OpenMarkdown r" "\<forall>t. p \<noteq> TimerFires t"
    by blast
  then show ?thesis
  proof cases
    case 1
    then show ?thesis using assms by (simp add: openMarkdown_def runThrottledAction_pendingHeld)
  next
    case 2
    then show ?thesis using assms by (simp add: timerFires_pendingHeld)
  next
    case 3
    then show ?thesis
      using perform_keeps [of p h s] assms by (blast intro: pendingHeld_frame)
  qed
qed

lemma run_pendingHeld: "pendingHeld s \<Longrightarrow> pendingHeld (run steps s)"
  by (induction steps arbitrary: s) (auto simp: perform_pendingHeld)

lemma constructor_keeps:
  "allNotebooks (constructor h folders) = Map.empty \<and>
   throttleTimer (constructor h folders) = None \<and>
   resource (constructor h folders) = None \<and>
   timers (constructor h folders) = []"
  using getTableOfContentFiles_keeps [of h folders initial]
  by (auto simp: constructor_def initial_def split: prod.splits sum.splits)

lemma constructor_pendingHeld: "pendingHeld (constructor h folders)"
  by (simp add: pendingHeld_def constructor_keeps)


lemma demo_tocPattern: "tocPattern demo_host ''/b'' = ''/b/**/_data/toc.yml''"
  by (simp add: tocPattern_def demo_host_def)

lemma demo_constructor:
  "constructor demo_host [''/b''] =
     \<lparr>tableOfContentPaths = [''/b/_data/toc.yml''], allNotebooks = Map.empty, throttleTimer = None,
      resource = None, timers = [], nextHandle = 1,
      trace = [ExecuteCommand ''setContext'' [AStr ''bookOpened'', ABool True], ReadAllTOCFilesFired]\<rparr>"
  by (simp add: constructor_def getTableOfContentFiles_def demo_tocPattern maxDepth_def initial_def
      emit_def Let_def)
    (simp add: demo_host_def)

lemma markdownAction_emit: "markdownAction h r s = emit (previewEffect h r) s"
  by (simp add: markdownAction_def previewEffect_def split: option.splits)

lemma demo_previewEffect:
  "previewEffect demo_host ''/b/content/notes.md''
     = ExecuteCommand ''markdown.showPreview'' [AUri ''file:///b/content/notes.md'']"
  by (simp add: previewEffect_def demo_host_def)

lemma demo_opened_twice:
  "openMarkdown demo_host ''/b/content/notes.md''
     (openMarkdown demo_host ''/b/content/notes.md'' (constructor demo_host [''/b''])) =
     \<lparr>tableOfContentPaths = [''/b/_data/toc.yml''], allNotebooks = Map.empty, throttleTimer = Some 1,
      resource = Some ''/b/content/notes.md'', timers = [(1, ''/b/content/notes.md'')], nextHandle = 2,
      trace = [ExecuteCommand ''setContext'' [AStr ''bookOpened'', ABool True], ReadAllTOCFilesFired,
               ExecuteCommand ''markdown.showPreview'' [AUri ''file:///b/content/notes.md'']]\<rparr>"
  by (simp add: demo_constructor openMarkdown_def runThrottledAction_def Let_def setTimeout_def
      markdownAction_emit demo_previewEffect emit_def)


text \<open>
  C7. The provider never has more than one debounce timer pending. In every state
  reachable from the constructor by any sequence of operations and timer firings, at
  most one timer is pending; a call of \<^verbatim>\<open>runThrottledAction\<close> with a changed resource
  leaves none pending, and a call made while a timer is pending adds none.
\<close>

theorem single_pending_timer:
  "length (timers (run steps (constructor h0 folders))) \<le> 1 \<and>
   (Some r \<noteq> resource (run steps (constructor h0 folders)) \<longrightarrow>
      timers (runThrottledAction h r (run steps (constructor h0 folders))) = []) \<and>
   (timers (run steps (constructor h0 folders)) \<noteq> [] \<longrightarrow>
      timers (runThrottledAction h r (run steps (constructor h0 folders)))
        = timers (run steps (constructor h0 folders)) \<or>
      timers (runThrottledAction h r (run steps (constructor h0 folders))) = [])"
proof -
  define s where "s = run steps (constructor h0 folders)"
  have inv: "pendingHeld s"
    unfolding s_def by (rule run_pendingHeld [OF constructor_pendingHeld])
  have one: "length (timers s) \<le> 1"
    using pendingHeld_cases [OF inv] by auto
  have change: "timers (runThrottledAction h r s) = []" if "Some r \<noteq> resource s"
    using inv that by (simp add: runThrottledAction_change)
  have pending: "timers (runThrottledAction h r s) = timers s"
    if ne: "timers s \<noteq> []" and same: "Some r = resource s"
  proof -
    obtain t where "throttleTimer s = Some t"
      using pendingHeld_cases [OF inv] ne by auto
    then show ?thesis using same by (simp add: runThrottledAction_held)
  qed
  show ?thesis
    using one change pending unfolding s_def by blast
qed

theorem single_pending_timer_witness:
  "timers (run [(demo_host, OpenMarkdown ''/b/content/notes.md''),
                (demo_host, OpenMarkdown ''/b/content/notes.md'')] (constructor demo_host [''/b'']))
     = [(1, ''/b/content/notes.md'')] \<and>
   Some ''/b/content/intro.md'' \<noteq> resource (run [(demo_host, OpenMarkdown ''/b/content/notes.md''),
                (demo_host, OpenMarkdown ''/b/content/notes.md'')] (constructor demo_host [''/b''])) \<and>
   timers (runThrottledAction demo_host ''/b/content/intro.md''
     (run [(demo_host, OpenMarkdown ''/b/content/notes.md''),
           (demo_host, OpenMarkdown ''/b/content/notes.md'')] (constructor demo_host [''/b'']))) = []"
  using single_pending_timer [of "[(demo_host, OpenMarkdown ''/b/content/notes.md''),
      (demo_host, OpenMarkdown ''/b/content/notes.md'')]" demo_host "[''/b'']" "''/b/content/intro.md''" demo_host]
  by (simp add: demo_opened_twice)


text \<open>
  C1, as the code has it. Two calls of \<^verbatim>\<open>openMarkdown\<close> in succession with a resource
  that differs from the provider's current one: the first call runs the preview action at
  once, the second runs nothing but leaves exactly one timer pending, and when that
  timer fires the preview action runs a second time.
\<close>

theorem openMarkdown_twice:
  assumes "Some r \<noteq> resource (run steps (constructor h0 folders))"
  shows "trace (openMarkdown h r (run steps (constructor h0 folders)))
           = trace (run steps (constructor h0 folders)) @ [previewEffect h r] \<and>
         trace (openMarkdown h r (openMarkdown h r (run steps (constructor h0 folders))))
           = trace (run steps (constructor h0 folders)) @ [previewEffect h r] \<and>
         timers (openMarkdown h r (openMarkdown h r (run steps (constructor h0 folders))))
           = [(nextHandle (run steps (constructor h0 folders)), r)] \<and>
         trace (timerFires h (nextHandle (run steps (constructor h0 folders)))
                  (openMarkdown h r (openMarkdown h r (run steps (constructor h0 folders)))))
           = trace (run steps (constructor h0 folders)) @ [previewEffect h r, previewEffect h r] \<and>
         timers (timerFires h (nextHandle (run steps (constructor h0 folders)))
                  (openMarkdown h r (openMarkdown h r (run steps (constructor h0 folders))))) = []"
proof -
  define s where "s = run steps (constructor h0 folders)"
  define s1 where "s1 = openMarkdown h r s"
  define s2 where "s2 = openMarkdown h r s1"
  have inv: "pendingHeld s"
    unfolding s_def by (rule run_pendingHeld [OF constructor_pendingHeld])
  have change: "Some r \<noteq> resource s" using assms by (simp add: s_def)
  have s1: "s1 = emit (previewEffect h r) (s\<lparr>timers := [], throttleTimer := None, resource := Some r\<rparr>)"
    unfolding s1_def openMarkdown_def
    by (simp add: runThrottledAction_change [OF inv change] markdownAction_emit)
  have s2: "s2 = s1\<lparr>timers := [(nextHandle s, r)], nextHandle := Suc (nextHandle s),
                     throttleTimer := Some (nextHandle s)\<rparr>"
    unfolding s2_def openMarkdown_def
    by (subst runThrottledAction_idle) (simp_all add: s1)
  have fired: "timerFires h (nextHandle s) s2 = emit (previewEffect h r) (s2\<lparr>timers := []\<rparr>)"
    by (simp add: timerFires_def s2 markdownAction_emit)
  have "trace s1 = trace s @ [previewEffect h r]" by (simp add: s1)
  moreover have "trace s2 = trace s @ [previewEffect h r]" by (simp add: s2 s1)
  moreover have "timers s2 = [(nextHandle s, r)]" by (simp add: s2)
  moreover have "trace (timerFires h (nextHandle s) s2) = trace s @ [previewEffect h r, previewEffect h r]"
    by (subst fired) (simp add: s2 s1)
  moreover have "timers (timerFires h (nextHandle s) s2) = []" by (subst fired) simp
  ultimately show ?thesis unfolding s2_def s1_def s_def by simp
qed

theorem openMarkdown_twice_witness:
  "Some ''/b/content/notes.md'' \<noteq> resource (run [] (constructor demo_host [''/b''])) \<and>
   trace (timerFires demo_host 1
       (openMarkdown demo_host ''/b/content/notes.md''
          (openMarkdown demo_host ''/b/content/notes.md'' (run [] (constructor demo_host [''/b''])))))
     = [ExecuteCommand ''setContext'' [AStr ''bookOpened'', ABool True], ReadAllTOCFilesFired,
        ExecuteCommand ''markdown.showPreview'' [AUri ''file:///b/content/notes.md''],
        ExecuteCommand ''markdown.showPreview'' [AUri ''file:///b/content/notes.md'']]"
proof -
  have ne: "Some ''/b/content/notes.md'' \<noteq> resource (run [] (constructor demo_host [''/b'']))"
    by (simp add: demo_constructor)
  show ?thesis
    using openMarkdown_twice [OF ne, of demo_host] ne
    by (simp add: demo_constructor demo_previewEffect)
qed


text \<open>
  C1, as stated, fails: after two successive opens of the same page on a fresh provider
  and the firing of the timer the second open scheduled, the preview command has been
  executed twice.
\<close>

theorem duplicate_open_runs_twice:
  "count_list
     (trace (timerFires demo_host 1
        (openMarkdown demo_host ''/b/content/notes.md''
           (openMarkdown demo_host ''/b/content/notes.md'' (constructor demo_host [''/b''])))))
     (ExecuteCommand ''markdown.showPreview'' [AUri ''file:///b/content/notes.md'']) = 2"
  by (simp add: demo_opened_twice timerFires_def markdownAction_emit demo_previewEffect emit_def)

section \<open>Sections and the notebook cache\<close>

lemma member_propOf: "sec \<noteq> JUndefined \<Longrightarrow> sec \<noteq> JNull \<Longrightarrow> member sec k = Inr (propOf sec k)"
  by (cases sec) (simp_all add: propOf_def)

lemma cacheAll_simps:
  "cacheAll h [] m = m"
  "cacheAll h (xs @ ys) m = cacheAll h ys (cacheAll h xs m)"
  "itemType it = Notebook \<Longrightarrow> cacheAll h [it] m = m(notebookPath h it \<mapsto> it)"
  "itemType it \<noteq> Notebook \<Longrightarrow> cacheAll h [it] m = m"
  by (simp_all add: cacheAll_def)


lemma sectionsLoop_entry:
  assumes "entryOk sec"
  shows "sectionsLoop h toc rt (sec # rest) nbs s
         = sectionsLoop h toc rt rest (nbs @ specItems h toc rt sec) (entryState h toc rt sec s)"
proof -
  have obj: "sec \<noteq> JUndefined" "sec \<noteq> JNull"
    using assms by (simp_all add: entryOk_def)
  note m = member_propOf [OF obj]
  show ?thesis
  proof (cases "truthy (propOf sec ''url'')")
    case False
    then show ?thesis
      by (cases s) (simp add: m specItems_def specMessages_def entryState_def cacheAll_simps)
  next
    case url: True
    show ?thesis
    proof (cases "truthy (propOf sec ''external'')")
      case True
      then show ?thesis using url
        by (cases s)
          (simp add: m specItems_def specMessages_def specKind_def entryState_def cacheAll_simps
            entryItem_def sectionItem_def)
    next
      case False
      then obtain u where u: "propOf sec ''url'' = JStr u"
        using assms url by (auto simp: entryOk_def split: jsval.splits)
      show ?thesis using url False
        by (cases s)
          (simp add: m u specItems_def specMessages_def specKind_def entryState_def cacheAll_simps
            entryItem_def sectionItem_def urlText_def notebookPath_def emit_def Let_def)
    qed
  qed
qed

lemma sectionsLoop_throws:
  assumes "\<not> entryOk sec"
  shows "\<exists>e. sectionsLoop h toc rt (sec # rest) nbs s = (Inl e, s)"
proof (cases "sec = JUndefined \<or> sec = JNull")
  case True
  then show ?thesis by auto
next
  case False
  then have obj: "sec \<noteq> JUndefined" "sec \<noteq> JNull" by simp_all
  note m = member_propOf [OF obj]
  from assms obj show ?thesis
    by (auto simp: entryOk_def m split: jsval.splits)
qed

lemma sectionsLoop_ok:
  "list_all entryOk secs \<Longrightarrow>
   sectionsLoop h toc rt secs nbs s =
     (Inr (nbs @ concat (map (specItems h toc rt) secs)),
      s\<lparr>allNotebooks := cacheAll h (concat (map (specItems h toc rt) secs)) (allNotebooks s),
        trace := trace s @ concat (map (specMessages h rt) secs)\<rparr>)"
proof (induction secs arbitrary: nbs s)
  case Nil
  show ?case by (cases s) (simp add: cacheAll_simps)
next
  case (Cons sec rest)
  then have ok: "entryOk sec" and rest: "list_all entryOk rest" by simp_all
  show ?case
    by (simp add: sectionsLoop_entry [OF ok] Cons.IH [OF rest] entryState_def cacheAll_simps
        del: sectionsLoop.simps)
qed

lemma sectionsLoop_Inr_ok:
  "fst (sectionsLoop h toc rt secs nbs s) = Inr items \<Longrightarrow> list_all entryOk secs"
proof (induction secs arbitrary: nbs s)
  case Nil
  show ?case by simp
next
  case (Cons sec rest)
  show ?case
  proof (cases "entryOk sec")
    case True
    then show ?thesis using Cons by (simp add: sectionsLoop_entry del: sectionsLoop.simps)
  next
    case False
    then obtain e where "sectionsLoop h toc rt (sec # rest) nbs s = (Inl e, s)"
      using sectionsLoop_throws by blast
    then show ?thesis using Cons.prems by (simp del: sectionsLoop.simps)
  qed
qed

lemma demo_entries_ok: "list_all entryOk demo_sections"
  by (simp add: demo_sections_def entryOk_def propOf_def)

lemma demo_getSections:
  "getSections demo_host [] demo_sections ''/b'' (constructor demo_host [''/b'']) =
     (Inr [sectionItem demo_host [] ''/b'' (JObj [(''title'', JStr ''Intro''), (''url'', JStr ''intro'')])
             (JStr ''Intro'') Notebook ''resources/light/notebook.svg'' ''resources/dark/notebook_inverse.svg'',
           sectionItem demo_host [] ''/b'' (JObj [(''title'', JStr ''Notes''), (''url'', JStr ''notes'')])
             (JStr ''Notes'') Markdown ''resources/light/markdown.svg'' ''resources/dark/markdown_inverse.svg'',
           sectionItem demo_host [] ''/b''
             (JObj [(''title'', JStr ''Site''), (''url'', JStr ''https://example.org''), (''external'', JBool True)])
             (JStr ''Site'') ExternalLink ''resources/light/link.svg'' ''resources/dark/link_inverse.svg''],
      \<lparr>tableOfContentPaths = [''/b/_data/toc.yml''],
       allNotebooks = [''/b/content/intro.ipynb'' \<mapsto>
          sectionItem demo_host [] ''/b'' (JObj [(''title'', JStr ''Intro''), (''url'', JStr ''intro'')])
             (JStr ''Intro'') Notebook ''resources/light/notebook.svg'' ''resources/dark/notebook_inverse.svg''],
       throttleTimer = None, resource = None, timers = [], nextHandle = 1,
       trace = [ExecuteCommand ''setContext'' [AStr ''bookOpened'', ABool True], ReadAllTOCFilesFired,
                ShowErrorMessage ''Missing file : {0}'']\<rparr>)"
proof -
  have j: "path_join demo_host = demo_join" "existsSync demo_host = (\<lambda>p. p = ''/b/content/intro.ipynb'' \<or> p = ''/b/content/notes.md'')"
    "localize demo_host = (\<lambda>key message args. message)"
    by (simp_all add: demo_host_def)
  show ?thesis
    by (simp add: getSections_def demo_sections_def demo_constructor Let_def j emit_def)
qed

lemma format_fields:
  "path_join format_host = demo_join"
  "existsSync format_host = (\<lambda>p. p = ''/b/content/intro.ipynb'' \<or> p = ''/b/content/notes.md'')"
  "localize format_host = (\<lambda>key message args. demo_format message (map argText args))"
  "asAbsolutePath format_host = (\<lambda>p. ''/ext/'' @ p)"
  by (simp_all add: format_host_def demo_host_def)

lemma format_specItems:
  "map itemType (concat (map (specItems format_host [] ''/b'') demo_sections))
     = [Notebook, Markdown, ExternalLink]"
  by (simp add: demo_sections_def specItems_def specKind_def propOf_def urlText_def format_fields
      entryItem_def sectionItem_def)

lemma format_specMessages:
  "concat (map (specMessages format_host ''/b'') demo_sections) = [ShowErrorMessage ''Missing file : Gone'']"
  by (simp add: demo_sections_def specMessages_def specKind_def propOf_def urlText_def format_fields
      argText_def)

lemma format_intro_cached:
  "dom (allNotebooks (entryState format_host [] ''/b''
          (JObj [(''title'', JStr ''Intro''), (''url'', JStr ''intro'')]) initial))
     = {''/b/content/intro.ipynb''}"
  by (simp add: entryState_def specItems_def specKind_def propOf_def urlText_def format_fields
      cacheAll_def entryItem_def sectionItem_def notebookPath_def initial_def)

lemma nav_fields:
  "path_join nav_host = demo_join"
  "existsSync nav_host = (\<lambda>p. p = ''/b/content/intro.ipynb'' \<or> p = ''/b/content/notes.md''
                          \<or> p = ''/b/content/gone.ipynb'')"
  "asAbsolutePath nav_host = (\<lambda>p. ''/ext/'' @ p)"
  "uriFile nav_host = (\<lambda>p. ''file://'' @ p)"
  "previousUri nav_host = (\<lambda>it. if page it = JObj [(''title'', JStr ''Gone''), (''url'', JStr ''gone'')]
                            then Some ''/b/content/notes.md'' else None)"
  "nextUri nav_host = (\<lambda>it. if page it = JObj [(''title'', JStr ''Intro''), (''url'', JStr ''intro'')]
                        then Some ''/b/content/notes.md''
                        else if page it = JObj [(''title'', JStr ''Gone''), (''url'', JStr ''gone'')]
                        then Some [] else None)"
  by (simp_all add: nav_host_def demo_host_def)

lemma nav_getSections:
  "getSections nav_host [] demo_sections ''/b'' initial =
     (Inr [entryItem nav_host [] ''/b'' (JObj [(''title'', JStr ''Intro''), (''url'', JStr ''intro'')]) Notebook,
           entryItem nav_host [] ''/b'' (JObj [(''title'', JStr ''Notes''), (''url'', JStr ''notes'')]) Markdown,
           entryItem nav_host [] ''/b''
             (JObj [(''title'', JStr ''Site''), (''url'', JStr ''https://example.org''), (''external'', JBool True)])
             ExternalLink,
           entryItem nav_host [] ''/b'' (JObj [(''title'', JStr ''Gone''), (''url'', JStr ''gone'')]) Notebook],
      initial\<lparr>allNotebooks :=
        [''/b/content/intro.ipynb'' \<mapsto>
           entryItem nav_host [] ''/b'' (JObj [(''title'', JStr ''Intro''), (''url'', JStr ''intro'')]) Notebook,
         ''/b/content/gone.ipynb'' \<mapsto>
           entryItem nav_host [] ''/b'' (JObj [(''title'', JStr ''Gone''), (''url'', JStr ''gone'')]) Notebook]\<rparr>)"
  by (simp add: getSections_def demo_sections_def Let_def nav_fields entryItem_def sectionItem_def
      propOf_def initial_def)

text \<open>
  C3, as the code has it. Take an entry that \<^verbatim>\<open>getSections\<close> reaches and that it can
  process: one that is not \<^verbatim>\<open>null\<close> or \<^verbatim>\<open>undefined\<close> and whose \<^verbatim>\<open>url\<close>, when truthy
  with \<^verbatim>\<open>external\<close> falsy, is a string. If its \<^verbatim>\<open>url\<close> is falsy (absent, or the empty
  string) it adds no item and no message. Otherwise it adds an external link when
  \<^verbatim>\<open>external\<close> is truthy; else a notebook, which is cached, when the \<^verbatim>\<open>.ipynb\<close> file
  exists, also when the \<^verbatim>\<open>.md\<close> file exists too; else a markdown page when the
  \<^verbatim>\<open>.md\<close> file exists; else no item and a "Missing file" message naming its title.
  The loop then goes on with the next entry. So when every entry of the list can be
  processed, \<^verbatim>\<open>getSections\<close> returns the items of the entries in order, caches the
  notebooks and shows the messages in order.
\<close>

theorem getSections_kinds:
  "(entryOk sec \<longrightarrow>
      sectionsLoop h toc rt (sec # rest) nbs s
        = sectionsLoop h toc rt rest (nbs @ specItems h toc rt sec) (entryState h toc rt sec s)) \<and>
   (list_all entryOk secs \<longrightarrow>
      fst (getSections h toc secs rt s) = Inr (concat (map (specItems h toc rt) secs)) \<and>
      allNotebooks (snd (getSections h toc secs rt s))
        = cacheAll h (concat (map (specItems h toc rt) secs)) (allNotebooks s) \<and>
      trace (snd (getSections h toc secs rt s)) = trace s @ concat (map (specMessages h rt) secs))"
  by (simp add: getSections_def sectionsLoop_ok sectionsLoop_entry del: sectionsLoop.simps)

theorem getSections_kinds_witness:
  "entryOk (JObj [(''title'', JStr ''Intro''), (''url'', JStr ''intro'')]) \<and>
   fst (sectionsLoop format_host [] ''/b''
          [JObj [(''title'', JStr ''Intro''), (''url'', JStr ''intro'')], JNull] [] initial)
     = Inl (Error ''Cannot read property url of null'') \<and>
   dom (allNotebooks (snd (sectionsLoop format_host [] ''/b''
          [JObj [(''title'', JStr ''Intro''), (''url'', JStr ''intro'')], JNull] [] initial)))
     = {''/b/content/intro.ipynb''} \<and>
   list_all entryOk demo_sections \<and>
   fst (getSections format_host [] demo_sections ''/b'' initial)
     = Inr (concat (map (specItems format_host [] ''/b'') demo_sections)) \<and>
   map itemType (concat (map (specItems format_host [] ''/b'') demo_sections))
     = [Notebook, Markdown, ExternalLink] \<and>
   trace (snd (getSections format_host [] demo_sections ''/b'' initial))
     = [ShowErrorMessage ''Missing file : Gone'']"
proof -
  have ok: "entryOk (JObj [(''title'', JStr ''Intro''), (''url'', JStr ''intro'')])"
    by (simp add: entryOk_def propOf_def)
  note step = getSections_kinds [THEN conjunct1, rule_format, OF ok,
      of format_host "[]" "''/b''" "[JNull]" "[]" initial]
  note whole = getSections_kinds [THEN conjunct2, rule_format, OF demo_entries_ok,
      of format_host "[]" "''/b''" initial]
  have null: "sectionsLoop format_host [] ''/b'' [JNull] nbs s
      = (Inl (Error ''Cannot read property url of null''), s)" for nbs s
    by simp
  have thrown: "fst (sectionsLoop format_host [] ''/b''
          [JObj [(''title'', JStr ''Intro''), (''url'', JStr ''intro'')], JNull] [] initial)
      = Inl (Error ''Cannot read property url of null'')"
    unfolding step null by simp
  have kept: "dom (allNotebooks (snd (sectionsLoop format_host [] ''/b''
          [JObj [(''title'', JStr ''Intro''), (''url'', JStr ''intro'')], JNull] [] initial)))
      = {''/b/content/intro.ipynb''}"
    unfolding step null snd_conv by (rule format_intro_cached)
  have items: "fst (getSections format_host [] demo_sections ''/b'' initial)
     = Inr (concat (map (specItems format_host [] ''/b'') demo_sections))"
    using whole by blast
  have tr: "trace (snd (getSections format_host [] demo_sections ''/b'' initial))
     = [ShowErrorMessage ''Missing file : Gone'']"
    using whole [THEN conjunct2, THEN conjunct2] by (simp add: format_specMessages initial_def)
  from ok thrown kept demo_entries_ok items format_specItems tr show ?thesis
    by (intro conjI)
qed

text \<open>
  C3, as stated, fails: an entry that has a \<^verbatim>\<open>url\<close> field holding the empty string and
  a truthy \<^verbatim>\<open>external\<close> yields no item, not an external link.
\<close>

theorem empty_url_external_entry_yields_nothing:
  "fst (getSections demo_host []
      [JObj [(''title'', JStr ''Home''), (''url'', JStr ''''), (''external'', JBool True)]]
      ''/b'' initial) = Inr []"
  by (simp add: getSections_def)

text \<open>
  C5. After a call of \<^verbatim>\<open>getSections\<close> that returns, the provider's map is the map
  before the call updated, in order, with each returned Notebook item under the path of
  its \<^verbatim>\<open>.ipynb\<close> file, and with nothing else: Markdown and ExternalLink items add no key.
  \<^verbatim>\<open>getNavigation\<close> answers \<^verbatim>\<open>hasNavigation: true\<close> exactly for the keys of the map;
  for a key, previous is \<^verbatim>\<open>Uri.file\<close> of the cached item's \<^verbatim>\<open>previousUri\<close> when that
  is a non-empty string and undefined otherwise, and next likewise from \<^verbatim>\<open>nextUri\<close>;
  for every other path the answer is false, undefined, undefined.
\<close>

theorem notebooks_cached:
  assumes "getSections h toc secs rt s = (Inr items, s')"
  shows "allNotebooks s' = cacheAll h items (allNotebooks s) \<and>
         dom (allNotebooks s')
           = dom (allNotebooks s) \<union> notebookPath h ` {it \<in> set items. itemType it = Notebook} \<and>
         hasNavigation (getNavigation h' p s') = (p \<in> dom (allNotebooks s')) \<and>
         (case allNotebooks s' p of
            Some nb \<Rightarrow>
              previous (getNavigation h' p s') =
                (case previousUri h' nb of
                   None \<Rightarrow> None
                 | Some u \<Rightarrow> if u = [] then None else Some (uriFile h' u)) \<and>
              next (getNavigation h' p s') =
                (case nextUri h' nb of
                   None \<Rightarrow> None
                 | Some u \<Rightarrow> if u = [] then None else Some (uriFile h' u))
          | None \<Rightarrow> getNavigation h' p s' = \<lparr>hasNavigation = False, previous = None, next = None\<rparr>)"
proof -
  have ok: "list_all entryOk secs"
    using assms sectionsLoop_Inr_ok [of h toc rt secs "[]" s items] by (simp add: getSections_def)
  have items: "items = concat (map (specItems h toc rt) secs)"
    and s': "s' = s\<lparr>allNotebooks := cacheAll h (concat (map (specItems h toc rt) secs)) (allNotebooks s),
        trace := trace s @ concat (map (specMessages h rt) secs)\<rparr>"
    using assms by (auto simp: getSections_def sectionsLoop_ok [OF ok])
  have cache: "allNotebooks s' = cacheAll h items (allNotebooks s)"
    by (simp add: s' items)
  have dom_cache: "dom (cacheAll h its m) = dom m \<union> notebookPath h ` {it \<in> set its. itemType it = Notebook}"
    for its m
    unfolding cacheAll_def
    by (induction its arbitrary: m) auto
  have nav: "hasNavigation (getNavigation h' p s') = (p \<in> dom (allNotebooks s'))"
    by (auto simp: getNavigation_def split: option.splits)
  have res: "case allNotebooks s' p of
            Some nb \<Rightarrow>
              previous (getNavigation h' p s') =
                (case previousUri h' nb of
                   None \<Rightarrow> None
                 | Some u \<Rightarrow> if u = [] then None else Some (uriFile h' u)) \<and>
              next (getNavigation h' p s') =
                (case nextUri h' nb of
                   None \<Rightarrow> None
                 | Some u \<Rightarrow> if u = [] then None else Some (uriFile h' u))
          | None \<Rightarrow> getNavigation h' p s' = \<lparr>hasNavigation = False, previous = None, next = None\<rparr>"
    by (simp add: getNavigation_def uriOf_def split: option.splits)
  show ?thesis
    using cache dom_cache [of items "allNotebooks s"] nav res by simp
qed

theorem notebooks_cached_witness:
  "fst (getSections nav_host [] demo_sections ''/b'' initial)
     = Inr (concat (map (specItems nav_host [] ''/b'') demo_sections)) \<and>
   dom (allNotebooks (snd (getSections nav_host [] demo_sections ''/b'' initial)))
     = {''/b/content/intro.ipynb'', ''/b/content/gone.ipynb''} \<and>
   hasNavigation (getNavigation nav_host ''/b/content/intro.ipynb''
     (snd (getSections nav_host [] demo_sections ''/b'' initial))) \<and>
   previous (getNavigation nav_host ''/b/content/intro.ipynb''
     (snd (getSections nav_host [] demo_sections ''/b'' initial))) = None \<and>
   next (getNavigation nav_host ''/b/content/intro.ipynb''
     (snd (getSections nav_host [] demo_sections ''/b'' initial))) = Some ''file:///b/content/notes.md'' \<and>
   hasNavigation (getNavigation nav_host ''/b/content/gone.ipynb''
     (snd (getSections nav_host [] demo_sections ''/b'' initial))) \<and>
   previous (getNavigation nav_host ''/b/content/gone.ipynb''
     (snd (getSections nav_host [] demo_sections ''/b'' initial))) = Some ''file:///b/content/notes.md'' \<and>
   next (getNavigation nav_host ''/b/content/gone.ipynb''
     (snd (getSections nav_host [] demo_sections ''/b'' initial))) = None \<and>
   getNavigation nav_host ''/b/content/notes.md''
     (snd (getSections nav_host [] demo_sections ''/b'' initial))
     = \<lparr>hasNavigation = False, previous = None, next = None\<rparr>"
proof -
  have items: "fst (getSections nav_host [] demo_sections ''/b'' initial)
     = Inr (concat (map (specItems nav_host [] ''/b'') demo_sections))"
    by (simp add: getSections_def sectionsLoop_ok [OF demo_entries_ok])
  note has = notebooks_cached [OF nav_getSections, of nav_host, THEN conjunct2, THEN conjunct2, THEN conjunct1]
  note res = notebooks_cached [OF nav_getSections, of nav_host, THEN conjunct2, THEN conjunct2, THEN conjunct2]
  have state: "snd (getSections nav_host [] demo_sections ''/b'' initial) =
      initial\<lparr>allNotebooks :=
        [''/b/content/intro.ipynb'' \<mapsto>
           entryItem nav_host [] ''/b'' (JObj [(''title'', JStr ''Intro''), (''url'', JStr ''intro'')]) Notebook,
         ''/b/content/gone.ipynb'' \<mapsto>
           entryItem nav_host [] ''/b'' (JObj [(''title'', JStr ''Gone''), (''url'', JStr ''gone'')]) Notebook]\<rparr>"
    by (simp add: nav_getSections)
  have keys: "dom (allNotebooks (snd (getSections nav_host [] demo_sections ''/b'' initial)))
     = {''/b/content/intro.ipynb'', ''/b/content/gone.ipynb''}"
    unfolding state by auto
  have a1: "hasNavigation (getNavigation nav_host ''/b/content/intro.ipynb''
       (snd (getSections nav_host [] demo_sections ''/b'' initial)))"
    unfolding state using has [of "''/b/content/intro.ipynb''"] by simp
  have a2: "previous (getNavigation nav_host ''/b/content/intro.ipynb''
       (snd (getSections nav_host [] demo_sections ''/b'' initial))) = None \<and>
     next (getNavigation nav_host ''/b/content/intro.ipynb''
       (snd (getSections nav_host [] demo_sections ''/b'' initial))) = Some ''file:///b/content/notes.md''"
    unfolding state using res [of "''/b/content/intro.ipynb''"]
    by (simp add: nav_fields entryItem_def sectionItem_def)
  have b1: "hasNavigation (getNavigation nav_host ''/b/content/gone.ipynb''
       (snd (getSections nav_host [] demo_sections ''/b'' initial)))"
    unfolding state using has [of "''/b/content/gone.ipynb''"] by simp
  have b2: "previous (getNavigation nav_host ''/b/content/gone.ipynb''
       (snd (getSections nav_host [] demo_sections ''/b'' initial))) = Some ''file:///b/content/notes.md'' \<and>
     next (getNavigation nav_host ''/b/content/gone.ipynb''
       (snd (getSections nav_host [] demo_sections ''/b'' initial))) = None"
    unfolding state using res [of "''/b/content/gone.ipynb''"]
    by (simp add: nav_fields entryItem_def sectionItem_def)
  have c: "getNavigation nav_host ''/b/content/notes.md''
     (snd (getSections nav_host [] demo_sections ''/b'' initial))
     = \<lparr>hasNavigation = False, previous = None, next = None\<rparr>"
    unfolding state using res [of "''/b/content/notes.md''"] by simp
  from items keys a1 a2 b1 b2 c show ?thesis
    by (intro conjI) simp_all
qed

lemma runThrottledAction_cache: "allNotebooks (runThrottledAction h r s) = allNotebooks s"
  by (cases "throttleTimer s")
    (simp_all add: runThrottledAction_def Let_def setTimeout_def split: prod.splits)

lemma timerFires_cache: "allNotebooks (timerFires h t s) = allNotebooks s"
  by (simp add: timerFires_def split: option.splits)

lemma perform_dom:
  assumes "k \<in> dom (allNotebooks s)"
  shows "k \<in> dom (allNotebooks (perform h p s))"
proof (cases p)
  case (GetChildren el)
  then show ?thesis using assms by (simp add: getChildren_dom)
qed (use assms in \<open>simp_all add: refresh_keeps getTableOfContentFiles_keeps openNotebook_keeps
      openExternalLink_keeps getBooks_keeps dispose_def openMarkdown_def
      runThrottledAction_cache timerFires_cache\<close>)

lemma run_dom: "k \<in> dom (allNotebooks s) \<Longrightarrow> k \<in> dom (allNotebooks (run steps s))"
  by (induction steps s rule: run.induct) (simp_all add: perform_dom)

text \<open>
  C9. No operation removes a key from the notebook cache: not any run of operations,
  not \<^verbatim>\<open>getSections\<close>; \<^verbatim>\<open>refresh\<close> leaves the map as it is, so a path cached before
  a refresh still has navigation after it, whatever the workspace then holds.
\<close>

theorem cache_never_evicts:
  "dom (allNotebooks s) \<subseteq> dom (allNotebooks (run steps s)) \<and>
   dom (allNotebooks s) \<subseteq> dom (allNotebooks (snd (getSections h toc secs rt s))) \<and>
   allNotebooks (snd (refresh h s)) = allNotebooks s \<and>
   (p \<in> dom (allNotebooks s) \<longrightarrow> hasNavigation (getNavigation h' p (snd (refresh h s))))"
proof -
  have "dom (allNotebooks s) \<subseteq> dom (allNotebooks (run steps s))"
    using run_dom by blast
  moreover have "dom (allNotebooks s) \<subseteq> dom (allNotebooks (snd (getSections h toc secs rt s)))"
    unfolding getSections_def using sectionsLoop_dom by blast
  moreover have same: "allNotebooks (snd (refresh h s)) = allNotebooks s"
    by (simp add: refresh_keeps)
  moreover have "hasNavigation (getNavigation h' p (snd (refresh h s)))" if "p \<in> dom (allNotebooks s)"
    using that by (auto simp: getNavigation_def same)
  ultimately show ?thesis by blast
qed

theorem cache_never_evicts_witness:
  "''/b/content/intro.ipynb''
     \<in> dom (allNotebooks (snd (getSections demo_host [] demo_sections ''/b'' (constructor demo_host [''/b''])))) \<and>
   tableOfContentPaths (snd (refresh closed_host
       (snd (getSections demo_host [] demo_sections ''/b'' (constructor demo_host [''/b'']))))) = [] \<and>
   hasNavigation (getNavigation closed_host ''/b/content/intro.ipynb''
     (snd (refresh closed_host
       (snd (getSections demo_host [] demo_sections ''/b'' (constructor demo_host [''/b'']))))))"
proof -
  have k: "''/b/content/intro.ipynb''
     \<in> dom (allNotebooks (snd (getSections demo_host [] demo_sections ''/b'' (constructor demo_host [''/b'']))))"
    by (simp add: demo_getSections)
  have t: "tableOfContentPaths (snd (refresh closed_host
       (snd (getSections demo_host [] demo_sections ''/b'' (constructor demo_host [''/b'']))))) = []"
    by (simp add: demo_getSections refresh_def getTableOfContentFiles_def closed_host_def demo_host_def Let_def)
  show ?thesis
    using cache_never_evicts [where s = "snd (getSections demo_host [] demo_sections ''/b'' (constructor demo_host [''/b'']))"
        and h = closed_host and h' = closed_host and p = "''/b/content/intro.ipynb''"
        and steps = "[]" and toc = "[]" and secs = "[]" and rt = "''/b''"] k t
    by simp
qed

section \<open>Scanning the workspace\<close>

lemma scanToEnd_scanNext:
  "scanToEnd h (scanNext h d folders s) =
     (case globLoop h d folders s of (Some e, s1) \<Rightarrow> (Inl e, s1) | (None, s1) \<Rightarrow> scanFinish h s1)"
proof (induction folders arbitrary: s)
  case Nil
  show ?case by (simp split: prod.splits)
next
  case (Cons w rest)
  show ?case
    by (cases "glob h (tocPattern h w) d") (simp_all add: scanResume_def Cons.IH)
qed

lemma getTableOfContentFiles_scan:
  "getTableOfContentFiles h folders s = scanToEnd h (scanStart h folders s)"
  by (simp add: scanStart_def scanToEnd_scanNext getTableOfContentFiles_def scanFinish_def
      split: prod.splits option.splits)

lemma globLoop_collected:
  "globsResolve h folders \<Longrightarrow>
   globLoop h (maxDepth (configMaxBookSearchDepth h)) folders s
     = (None, s\<lparr>tableOfContentPaths := tableOfContentPaths s @ collected h folders\<rparr>)"
proof (induction folders arbitrary: s)
  case Nil
  show ?case by (cases s) (simp add: collected_def)
next
  case (Cons w rest)
  then obtain found where found: "glob h (tocPattern h w) (maxDepth (configMaxBookSearchDepth h)) = Inr found"
    and rest: "globsResolve h rest"
    by (auto simp: globsResolve_def split: sum.splits)
  have c: "collected h (w # rest) = found @ collected h rest"
    by (simp add: collected_def found)
  show ?case
    by (simp add: found Cons.IH [OF rest] c)
qed

lemma demo_scan_fields:
  "glob demo_host ''/b/**/_data/toc.yml'' (Some 5) = Inr [''/b/_data/toc.yml'']"
  "executeCommand demo_host c a = None"
  "configMaxBookSearchDepth demo_host = None"
  by (simp_all add: demo_host_def)

text \<open>
  C4, as the code has it. \<^verbatim>\<open>getTableOfContentFiles\<close> globs
  \<^verbatim>\<open><folder>/**/_data/toc.yml\<close>, with the configured search-depth limit, for each folder
  in order, awaiting each glob. Each time a glob resolves it appends the paths found to
  the provider's list as that list then is. After the last folder (at once, when there
  is no folder), if the \<^verbatim>\<open>setContext\<close> command does not throw, it sets \<^verbatim>\<open>bookOpened\<close>
  to true exactly when the provider's list is then not empty, and then fires
  \<^verbatim>\<open>onReadAllTOCFiles\<close>. When every glob resolves and nothing else runs between the
  call and its end, the list afterwards is the list at the call followed by the paths
  collected, and \<^verbatim>\<open>bookOpened\<close> is true exactly when the list at the call was not empty
  or a path was collected.
\<close>

theorem getTableOfContentFiles_collects:
  "scanStart h (w # rest) s =
     (Awaiting \<lparr>scanPattern = tocPattern h w, scanDepth = maxDepth (configMaxBookSearchDepth h),
                scanRest = rest\<rparr>, s) \<and>
   (glob h (scanPattern sc) (scanDepth sc) = Inr found \<and> scanRest sc = w # rest \<longrightarrow>
      scanResume h sc s =
        (Awaiting \<lparr>scanPattern = tocPattern h w, scanDepth = scanDepth sc, scanRest = rest\<rparr>,
         s\<lparr>tableOfContentPaths := tableOfContentPaths s @ found\<rparr>)) \<and>
   (glob h (scanPattern sc) (scanDepth sc) = Inr found \<and> scanRest sc = [] \<and>
    executeCommand h ''setContext''
      [AStr ''bookOpened'', ABool (tableOfContentPaths s \<noteq> [] \<or> found \<noteq> [])] = None \<longrightarrow>
      scanResume h sc s =
        (Settled (Inr ()),
         s\<lparr>tableOfContentPaths := tableOfContentPaths s @ found,
           trace := trace s @
             [ExecuteCommand ''setContext''
                [AStr ''bookOpened'', ABool (tableOfContentPaths s \<noteq> [] \<or> found \<noteq> [])],
              ReadAllTOCFilesFired]\<rparr>)) \<and>
   (executeCommand h ''setContext'' [AStr ''bookOpened'', ABool (tableOfContentPaths s \<noteq> [])] = None \<longrightarrow>
      scanStart h [] s =
        (Settled (Inr ()),
         s\<lparr>trace := trace s @
             [ExecuteCommand ''setContext'' [AStr ''bookOpened'', ABool (tableOfContentPaths s \<noteq> [])],
              ReadAllTOCFilesFired]\<rparr>)) \<and>
   (globsResolve h folders \<and>
    executeCommand h ''setContext''
      [AStr ''bookOpened'', ABool (tableOfContentPaths s \<noteq> [] \<or> collected h folders \<noteq> [])] = None \<longrightarrow>
      scanToEnd h (scanStart h folders s) =
        (Inr (), s\<lparr>tableOfContentPaths := tableOfContentPaths s @ collected h folders,
                  trace := trace s @
                    [ExecuteCommand ''setContext''
                       [AStr ''bookOpened'',
                        ABool (tableOfContentPaths s \<noteq> [] \<or> collected h folders \<noteq> [])],
                     ReadAllTOCFilesFired]\<rparr>))"
proof -
  have start: "scanStart h (w # rest) s =
     (Awaiting \<lparr>scanPattern = tocPattern h w, scanDepth = maxDepth (configMaxBookSearchDepth h),
                scanRest = rest\<rparr>, s)"
    by (simp add: scanStart_def)
  have more: "scanResume h sc s =
        (Awaiting \<lparr>scanPattern = tocPattern h w, scanDepth = scanDepth sc, scanRest = rest\<rparr>,
         s\<lparr>tableOfContentPaths := tableOfContentPaths s @ found\<rparr>)"
    if "glob h (scanPattern sc) (scanDepth sc) = Inr found" "scanRest sc = w # rest"
    using that by (simp add: scanResume_def)
  have last: "scanResume h sc s =
        (Settled (Inr ()),
         s\<lparr>tableOfContentPaths := tableOfContentPaths s @ found,
           trace := trace s @
             [ExecuteCommand ''setContext''
                [AStr ''bookOpened'', ABool (tableOfContentPaths s \<noteq> [] \<or> found \<noteq> [])],
              ReadAllTOCFilesFired]\<rparr>)"
    if "glob h (scanPattern sc) (scanDepth sc) = Inr found" "scanRest sc = []"
      "executeCommand h ''setContext''
        [AStr ''bookOpened'', ABool (tableOfContentPaths s \<noteq> [] \<or> found \<noteq> [])] = None"
    using that by (simp add: scanResume_def scanFinish_def emit_def)
  have none: "scanStart h [] s =
        (Settled (Inr ()),
         s\<lparr>trace := trace s @
             [ExecuteCommand ''setContext'' [AStr ''bookOpened'', ABool (tableOfContentPaths s \<noteq> [])],
              ReadAllTOCFilesFired]\<rparr>)"
    if "executeCommand h ''setContext'' [AStr ''bookOpened'', ABool (tableOfContentPaths s \<noteq> [])] = None"
    using that by (simp add: scanStart_def scanFinish_def emit_def)
  have alone: "scanToEnd h (scanStart h folders s) =
        (Inr (), s\<lparr>tableOfContentPaths := tableOfContentPaths s @ collected h folders,
                  trace := trace s @
                    [ExecuteCommand ''setContext''
                       [AStr ''bookOpened'',
                        ABool (tableOfContentPaths s \<noteq> [] \<or> collected h folders \<noteq> [])],
                     ReadAllTOCFilesFired]\<rparr>)"
    if g: "globsResolve h folders"
      and x: "executeCommand h ''setContext''
        [AStr ''bookOpened'', ABool (tableOfContentPaths s \<noteq> [] \<or> collected h folders \<noteq> [])] = None"
    using x by (simp add: scanStart_def scanToEnd_scanNext globLoop_collected [OF g] scanFinish_def emit_def)
  show ?thesis
    using start more last none alone by blast
qed

text \<open>
  An example: one scan of \<^verbatim>\<open>/b\<close> alone, and two scans of \<^verbatim>\<open>/b\<close> started on the same
  provider before either glob has settled, which leave the path in the list twice.
\<close>

theorem getTableOfContentFiles_collects_witness:
  "globsResolve demo_host [''/b''] \<and>
   collected demo_host [''/b''] = [''/b/_data/toc.yml''] \<and>
   scanStart demo_host [''/b''] initial =
     (Awaiting \<lparr>scanPattern = ''/b/**/_data/toc.yml'', scanDepth = Some 5, scanRest = []\<rparr>, initial) \<and>
   scanToEnd demo_host (scanStart demo_host [''/b''] initial) =
     (Inr (), initial\<lparr>tableOfContentPaths := [''/b/_data/toc.yml''],
        trace := [ExecuteCommand ''setContext'' [AStr ''bookOpened'', ABool True], ReadAllTOCFilesFired]\<rparr>) \<and>
   scanResume demo_host \<lparr>scanPattern = ''/b/**/_data/toc.yml'', scanDepth = Some 5, scanRest = []\<rparr>
     (snd (scanResume demo_host \<lparr>scanPattern = ''/b/**/_data/toc.yml'', scanDepth = Some 5, scanRest = []\<rparr>
        initial)) =
     (Settled (Inr ()), initial\<lparr>tableOfContentPaths := [''/b/_data/toc.yml'', ''/b/_data/toc.yml''],
        trace := [ExecuteCommand ''setContext'' [AStr ''bookOpened'', ABool True], ReadAllTOCFilesFired,
                  ExecuteCommand ''setContext'' [AStr ''bookOpened'', ABool True], ReadAllTOCFilesFired]\<rparr>)"
proof -
  define sc where "sc = \<lparr>scanPattern = ''/b/**/_data/toc.yml'', scanDepth = Some 5, scanRest = []\<rparr>"
  define s1 where "s1 = initial\<lparr>tableOfContentPaths := [''/b/_data/toc.yml''],
        trace := [ExecuteCommand ''setContext'' [AStr ''bookOpened'', ABool True], ReadAllTOCFilesFired]\<rparr>"
  have g: "globsResolve demo_host [''/b'']"
    by (simp add: globsResolve_def demo_tocPattern maxDepth_def demo_scan_fields)
  have c: "collected demo_host [''/b''] = [''/b/_data/toc.yml'']"
    by (simp add: collected_def demo_tocPattern maxDepth_def demo_scan_fields)
  have found: "glob demo_host (scanPattern sc) (scanDepth sc) = Inr [''/b/_data/toc.yml'']"
    by (simp add: sc_def demo_scan_fields)
  have rest: "scanRest sc = []" by (simp add: sc_def)
  note t = getTableOfContentFiles_collects [where h = demo_host and sc = sc
      and found = "[''/b/_data/toc.yml'']" and w = "''/b''" and rest = "[]" and folders = "[''/b'']"]
  note t_start = t [THEN conjunct1]
  note t_last = t [THEN conjunct2, THEN conjunct2, THEN conjunct1, rule_format,
      OF conjI [OF found conjI [OF rest demo_scan_fields(2)]]]
  note t_alone = t [THEN conjunct2, THEN conjunct2, THEN conjunct2, THEN conjunct2, rule_format,
      OF conjI [OF g demo_scan_fields(2)]]
  have start: "scanStart demo_host [''/b''] initial = (Awaiting sc, initial)"
    using t_start [of initial] by (simp add: sc_def demo_tocPattern maxDepth_def demo_scan_fields)
  have alone: "scanToEnd demo_host (scanStart demo_host [''/b''] initial) = (Inr (), s1)"
    using t_alone [of initial] by (simp add: c s1_def initial_def)
  have first: "scanResume demo_host sc initial = (Settled (Inr ()), s1)"
    using t_last [of initial] by (simp add: s1_def initial_def)
  have second: "scanResume demo_host sc s1 =
     (Settled (Inr ()), initial\<lparr>tableOfContentPaths := [''/b/_data/toc.yml'', ''/b/_data/toc.yml''],
        trace := [ExecuteCommand ''setContext'' [AStr ''bookOpened'', ABool True], ReadAllTOCFilesFired,
                  ExecuteCommand ''setContext'' [AStr ''bookOpened'', ABool True], ReadAllTOCFilesFired]\<rparr>)"
    using t_last [of s1] by (simp add: s1_def initial_def)
  show ?thesis
    unfolding sc_def [symmetric] s1_def [symmetric] first snd_conv
    using g c start alone second by simp
qed

text \<open>
  C4, as stated, fails: called with no folders on a provider whose list already holds a
  path (here after a first scan has settled), \<^verbatim>\<open>getTableOfContentFiles\<close> collects
  nothing and sets \<^verbatim>\<open>bookOpened\<close> to true.
\<close>

theorem bookOpened_set_without_collecting:
  "collected demo_host [] = [] \<and>
   tableOfContentPaths (snd (scanToEnd demo_host (scanStart demo_host [''/b''] initial)))
     = [''/b/_data/toc.yml''] \<and>
   scanStart demo_host [] (snd (scanToEnd demo_host (scanStart demo_host [''/b''] initial))) =
     (Settled (Inr ()),
      initial\<lparr>tableOfContentPaths := [''/b/_data/toc.yml''],
        trace := [ExecuteCommand ''setContext'' [AStr ''bookOpened'', ABool True], ReadAllTOCFilesFired,
                  ExecuteCommand ''setContext'' [AStr ''bookOpened'', ABool True], ReadAllTOCFilesFired]\<rparr>)"
  by (simp add: collected_def scanStart_def scanResume_def scanFinish_def demo_tocPattern maxDepth_def
      demo_scan_fields emit_def initial_def)

lemma globLoop_glob_at_depth:
  assumes "\<forall>pat. g pat d = glob h pat d"
  shows "globLoop (h\<lparr>glob := g\<rparr>) d folders s = globLoop h d folders s"
  using assms
  by (induction folders arbitrary: s) (simp_all add: tocPattern_def split: sum.splits)

text \<open>
  C8. The depth handed to \<^verbatim>\<open>glob\<close> is the configured one normalised: 5 for an undefined
  or negative setting, no limit for 0, the setting itself otherwise; and
  \<^verbatim>\<open>getTableOfContentFiles\<close> consults \<^verbatim>\<open>glob\<close> at that depth only.
\<close>

theorem search_depth_normalised:
  "maxDepth d = specDepth d \<and>
   ((\<forall>pat. g pat (specDepth (configMaxBookSearchDepth h)) = glob h pat (specDepth (configMaxBookSearchDepth h)))
      \<longrightarrow> getTableOfContentFiles (h\<lparr>glob := g\<rparr>) folders s = getTableOfContentFiles h folders s)"
proof -
  have eq: "maxDepth d = specDepth d" for d
    by (cases d) (auto simp: maxDepth_def specDepth_def)
  show ?thesis
    by (auto simp: eq getTableOfContentFiles_def globLoop_glob_at_depth Let_def
        split: prod.splits option.splits)
qed

theorem search_depth_normalised_witness:
  "specDepth (Some (- 2)) = Some 5 \<and> specDepth None = Some 5 \<and> specDepth (Some 0) = None \<and>
   specDepth (Some 3) = Some 3 \<and> maxDepth (Some (- 2)) = Some 5 \<and>
   getTableOfContentFiles
     (demo_host\<lparr>configMaxBookSearchDepth := Some (- 2),
                glob := (\<lambda>pat deep. if deep = Some 5 then glob demo_host pat deep else Inl (Error ''depth''))\<rparr>)
     [''/b''] initial
   = getTableOfContentFiles (demo_host\<lparr>configMaxBookSearchDepth := Some (- 2)\<rparr>) [''/b''] initial"
proof -
  have d: "specDepth (Some (- 2)) = Some 5" "specDepth None = Some 5" "specDepth (Some 0) = None"
    "specDepth (Some 3) = Some 3"
    by (simp_all add: specDepth_def)
  show ?thesis
    using search_depth_normalised [of "Some (- 2)"
        "\<lambda>pat deep. if deep = Some 5 then glob demo_host pat deep else Inl (Error ''depth'')"
        "demo_host\<lparr>configMaxBookSearchDepth := Some (- 2)\<rparr>" "[''/b'']" initial] d
    by simp
qed

section \<open>Failures of the file operations\<close>

lemma loadBook_specBook: "loadBook h (bookRoot h p) p = specBook h p"
  by (simp add: loadBook_def specBook_def readYaml_def split: sum.splits)

lemma booksLoop_result:
  "booksLoop h paths books s =
     (books @ loadedBooks h paths, s\<lparr>trace := trace s @ bookMessages h paths\<rparr>)"
proof (induction paths arbitrary: books s)
  case Nil
  show ?case by (cases s) (simp add: loadedBooks_def bookMessages_def)
next
  case (Cons p rest)
  have l: "loadBook h (path_dirname h (path_dirname h p)) p = specBook h p"
    using loadBook_specBook [of h p] by (simp add: bookRoot_def)
  show ?case
    by (cases "specBook h p")
      (simp_all add: l Cons.IH loadedBooks_def bookMessages_def bookRoot_def Let_def emit_def)
qed

lemma two_books_fields:
  "openTextDocument two_books_host = (\<lambda>p. if p = ''/b/content/intro.ipynb'' then Inr p else Inl (Error ''ENOENT''))"
  "showTextDocument two_books_host = (\<lambda>d. None)"
  "readFileSync two_books_host = (\<lambda>p. if p = ''/b/_config.yml'' then Inr ''title: Demo''
                          else if p = ''/b/_data/toc.yml'' then Inr ''toc''
                          else Inl (Error ''ENOENT''))"
  "safeLoad two_books_host = (\<lambda>t. if t = ''title: Demo'' then Inr (JObj [(''title'', JStr ''Demo'')])
                      else if t = ''toc'' then Inr demo_toc
                      else Inl (Error ''bad yaml''))"
  "uriParse two_books_host = (\<lambda>r. if r = ''my docs://page''
                        then Inl (Error ''[UriError]: Scheme contains illegal characters.'')
                        else Inr r)"
  "openExternal two_books_host = (\<lambda>u. None)"
  "localize two_books_host = (\<lambda>key message args. demo_format message (map argText args))"
  "path_join two_books_host = demo_join"
  "path_dirname two_books_host = demo_dirname"
  "asAbsolutePath two_books_host = (\<lambda>p. ''/ext/'' @ p)"
  "executeCommand two_books_host = (\<lambda>c a. None)"
  "configMaxBookSearchDepth two_books_host = None"
  by (simp_all add: two_books_host_def format_host_def demo_host_def)

lemma two_books_glob:
  "glob two_books_host ''/a/**/_data/toc.yml'' d = Inr [''/a/_data/toc.yml'']"
  "glob two_books_host ''/b/**/_data/toc.yml'' d = Inr [''/b/_data/toc.yml'']"
  by (simp_all add: two_books_host_def)

lemma two_books_constructor:
  "constructor two_books_host [''/a'', ''/b''] =
     initial\<lparr>tableOfContentPaths := [''/a/_data/toc.yml'', ''/b/_data/toc.yml''],
       trace := [ExecuteCommand ''setContext'' [AStr ''bookOpened'', ABool True], ReadAllTOCFilesFired]\<rparr>"
  by (simp add: constructor_def getTableOfContentFiles_def tocPattern_def two_books_fields
      two_books_glob maxDepth_def emit_def initial_def)

lemma two_books_roots:
  "bookRoot two_books_host ''/a/_data/toc.yml'' = ''/a''"
  "bookRoot two_books_host ''/b/_data/toc.yml'' = ''/b''"
  by (simp_all add: bookRoot_def two_books_fields demo_dirname_def)

lemma two_books_flat: "flattenArray demo_toc = Inr demo_sections"
  by (simp add: demo_toc_def demo_sections_def)

lemma two_books_loaded:
  "specBook two_books_host ''/a/_data/toc.yml'' = Inl (Error ''ENOENT'')"
  "specBook two_books_host ''/b/_data/toc.yml'' =
     Inr \<lparr>title = JStr ''Demo'', root = ''/b'', tableOfContents = demo_sections, page = demo_toc,
          itemType = Book, iconLight = ''/ext/resources/light/book.svg'',
          iconDark = ''/ext/resources/dark/book_inverse.svg''\<rparr>"
  by (simp_all add: specBook_def two_books_roots readYaml_def two_books_fields two_books_flat
      del: flattenArray.simps)

text \<open>
  C2. The file operations of the provider turn failures into error messages.
  \<^verbatim>\<open>openNotebook\<close> always resolves; it shows "Open file ... failed" when opening or
  showing the document fails, and shows the document otherwise. \<^verbatim>\<open>getBooks\<close> always
  returns: for each path in order, a book whose \<^verbatim>\<open>_config.yml\<close> and \<^verbatim>\<open>toc.yml\<close> both
  read and parse (and give a title and a table of contents) is built and returned, and
  any other path adds one message and no book, without stopping the loop.
  \<^verbatim>\<open>openExternalLink\<close> shows "Open link ... failed" when parsing or opening the link
  throws, and opens the link otherwise.
\<close>

theorem file_errors_become_messages:
  "fst (openNotebook h res s) = Inr () \<and>
   (openTextDocument h res = Inl e \<or>
    (\<exists>doc. openTextDocument h res = Inr doc \<and> showTextDocument h doc = Some e) \<longrightarrow>
      trace (snd (openNotebook h res s)) = trace s @
        [ShowErrorMessage (localize h ''openNotebookError'' ''Open file {0} failed: {1}''
           [JStr res, exn_arg e])]) \<and>
   (openTextDocument h res = Inr doc \<and> showTextDocument h doc = None \<longrightarrow>
      trace (snd (openNotebook h res s)) = trace s @ [ShowTextDocument doc]) \<and>
   getBooks h s = (Inr (loadedBooks h (tableOfContentPaths s)),
                   s\<lparr>trace := trace s @ bookMessages h (tableOfContentPaths s)\<rparr>) \<and>
   (readYaml h (path_join h [rt, ''_config.yml'']) = Inl e \<longrightarrow> loadBook h rt p = Inl e) \<and>
   (readYaml h (path_join h [rt, ''_config.yml'']) = Inr config \<and> readYaml h p = Inl e
      \<longrightarrow> loadBook h rt p = Inl e) \<and>
   (readYaml h (path_join h [rt, ''_config.yml'']) = Inr config \<and> readYaml h p = Inr toc \<and>
    member config ''title'' = Inr t \<and> flattenArray toc = Inr flat
      \<longrightarrow> loadBook h rt p =
            Inr \<lparr>title = t, root = rt, tableOfContents = flat, page = toc, itemType = Book,
                 iconLight = asAbsolutePath h ''resources/light/book.svg'',
                 iconDark = asAbsolutePath h ''resources/dark/book_inverse.svg''\<rparr>) \<and>
   (uriParse h link = Inl e \<or> (\<exists>u. uriParse h link = Inr u \<and> openExternal h u = Some e) \<longrightarrow>
      trace (openExternalLink h link s) = trace s @
        [ShowErrorMessage (localize h ''openExternalLinkError'' ''Open link {0} failed: {1}''
           [JStr link, exn_arg e])]) \<and>
   (uriParse h link = Inr u \<and> openExternal h u = None \<longrightarrow>
      trace (openExternalLink h link s) = trace s @ [OpenExternal u])"
proof -
  have nb1: "fst (openNotebook h res s) = Inr ()"
    by (simp add: openNotebook_def Let_def split: sum.splits option.splits)
  have nb2: "trace (snd (openNotebook h res s)) = trace s @
        [ShowErrorMessage (localize h ''openNotebookError'' ''Open file {0} failed: {1}''
           [JStr res, exn_arg e])]"
    if "openTextDocument h res = Inl e \<or>
        (\<exists>doc. openTextDocument h res = Inr doc \<and> showTextDocument h doc = Some e)"
    using that by (auto simp: openNotebook_def Let_def)
  have nb3: "trace (snd (openNotebook h res s)) = trace s @ [ShowTextDocument doc]"
    if "openTextDocument h res = Inr doc" "showTextDocument h doc = None"
    using that by (simp add: openNotebook_def Let_def)
  have books: "getBooks h s = (Inr (loadedBooks h (tableOfContentPaths s)),
                   s\<lparr>trace := trace s @ bookMessages h (tableOfContentPaths s)\<rparr>)"
    by (simp add: getBooks_def booksLoop_result)
  have cfg: "loadBook h rt p = Inl e" if "readYaml h (path_join h [rt, ''_config.yml'']) = Inl e"
    using that by (auto simp: loadBook_def readYaml_def split: sum.splits)
  have toc: "loadBook h rt p = Inl e"
    if "readYaml h (path_join h [rt, ''_config.yml'']) = Inr config" "readYaml h p = Inl e"
    using that by (auto simp: loadBook_def readYaml_def split: sum.splits)
  have built: "loadBook h rt p =
            Inr \<lparr>title = t, root = rt, tableOfContents = flat, page = toc, itemType = Book,
                 iconLight = asAbsolutePath h ''resources/light/book.svg'',
                 iconDark = asAbsolutePath h ''resources/dark/book_inverse.svg''\<rparr>"
    if "readYaml h (path_join h [rt, ''_config.yml'']) = Inr config" "readYaml h p = Inr toc"
      "member config ''title'' = Inr t" "flattenArray toc = Inr flat"
    using that by (auto simp: loadBook_def readYaml_def split: sum.splits)
  have link1: "trace (openExternalLink h link s) = trace s @
        [ShowErrorMessage (localize h ''openExternalLinkError'' ''Open link {0} failed: {1}''
           [JStr link, exn_arg e])]"
    if "uriParse h link = Inl e \<or> (\<exists>u. uriParse h link = Inr u \<and> openExternal h u = Some e)"
    using that by (auto simp: openExternalLink_def Let_def)
  have link2: "trace (openExternalLink h link s) = trace s @ [OpenExternal u]"
    if "uriParse h link = Inr u" "openExternal h u = None"
    using that by (simp add: openExternalLink_def Let_def)
  show ?thesis
    using nb1 nb2 nb3 books cfg toc built link1 link2 by blast
qed

theorem file_errors_become_messages_witness:
  "openTextDocument two_books_host ''/b/content/gone.ipynb'' = Inl (Error ''ENOENT'') \<and>
   fst (openNotebook two_books_host ''/b/content/gone.ipynb'' (constructor two_books_host [''/a'', ''/b'']))
     = Inr () \<and>
   trace (snd (openNotebook two_books_host ''/b/content/gone.ipynb''
       (constructor two_books_host [''/a'', ''/b''])))
     = trace (constructor two_books_host [''/a'', ''/b'']) @
       [ShowErrorMessage ''Open file /b/content/gone.ipynb failed: ENOENT''] \<and>
   trace (snd (openNotebook two_books_host ''/b/content/intro.ipynb''
       (constructor two_books_host [''/a'', ''/b''])))
     = trace (constructor two_books_host [''/a'', ''/b'']) @ [ShowTextDocument ''/b/content/intro.ipynb''] \<and>
   trace (snd (openNotebook (two_books_host\<lparr>showTextDocument := (\<lambda>d. Some (Error ''no editor''))\<rparr>)
       ''/b/content/intro.ipynb'' (constructor two_books_host [''/a'', ''/b''])))
     = trace (constructor two_books_host [''/a'', ''/b'']) @
       [ShowErrorMessage ''Open file /b/content/intro.ipynb failed: no editor''] \<and>
   tableOfContentPaths (constructor two_books_host [''/a'', ''/b''])
     = [''/a/_data/toc.yml'', ''/b/_data/toc.yml''] \<and>
   readYaml two_books_host (path_join two_books_host [''/a'', ''_config.yml'']) = Inl (Error ''ENOENT'') \<and>
   loadBook two_books_host ''/a'' ''/a/_data/toc.yml'' = Inl (Error ''ENOENT'') \<and>
   loadBook two_books_host ''/b'' ''/b/_data/toc.yml'' =
     Inr \<lparr>title = JStr ''Demo'', root = ''/b'', tableOfContents = demo_sections, page = demo_toc,
          itemType = Book, iconLight = ''/ext/resources/light/book.svg'',
          iconDark = ''/ext/resources/dark/book_inverse.svg''\<rparr> \<and>
   fst (getBooks two_books_host (constructor two_books_host [''/a'', ''/b''])) =
     Inr [\<lparr>title = JStr ''Demo'', root = ''/b'', tableOfContents = demo_sections, page = demo_toc,
           itemType = Book, iconLight = ''/ext/resources/light/book.svg'',
           iconDark = ''/ext/resources/dark/book_inverse.svg''\<rparr>] \<and>
   trace (snd (getBooks two_books_host (constructor two_books_host [''/a'', ''/b''])))
     = trace (constructor two_books_host [''/a'', ''/b'']) @
       [ShowErrorMessage ''Open file /a/_config.yml failed: ENOENT''] \<and>
   uriParse two_books_host ''my docs://page''
     = Inl (Error ''[UriError]: Scheme contains illegal characters.'') \<and>
   trace (openExternalLink two_books_host ''my docs://page'' (constructor two_books_host [''/a'', ''/b'']))
     = trace (constructor two_books_host [''/a'', ''/b'']) @
       [ShowErrorMessage
          ''Open link my docs://page failed: [UriError]: Scheme contains illegal characters.''] \<and>
   trace (openExternalLink two_books_host ''https://example.org''
       (constructor two_books_host [''/a'', ''/b'']))
     = trace (constructor two_books_host [''/a'', ''/b'']) @ [OpenExternal ''https://example.org'']"
proof -
  define s where "s = constructor two_books_host [''/a'', ''/b'']"
  define h2 where "h2 = two_books_host\<lparr>showTextDocument := (\<lambda>d. Some (Error ''no editor''))\<rparr>"
  have h2: "openTextDocument h2 = openTextDocument two_books_host"
    "showTextDocument h2 = (\<lambda>d. Some (Error ''no editor''))"
    "localize h2 = localize two_books_host"
    by (simp_all add: h2_def)
  have gone: "openTextDocument two_books_host ''/b/content/gone.ipynb'' = Inl (Error ''ENOENT'')"
    by (simp add: two_books_fields)
  have intro: "openTextDocument two_books_host ''/b/content/intro.ipynb'' = Inr ''/b/content/intro.ipynb''"
    by (simp add: two_books_fields)
  have shown: "showTextDocument two_books_host ''/b/content/intro.ipynb'' = None"
    by (simp add: two_books_fields)
  have paths: "tableOfContentPaths s = [''/a/_data/toc.yml'', ''/b/_data/toc.yml'']"
    by (simp add: s_def two_books_constructor)
  have cfg_a: "readYaml two_books_host (path_join two_books_host [''/a'', ''_config.yml'']) = Inl (Error ''ENOENT'')"
    by (simp add: readYaml_def two_books_fields)
  have cfg_b: "readYaml two_books_host (path_join two_books_host [''/b'', ''_config.yml''])
      = Inr (JObj [(''title'', JStr ''Demo'')])"
    by (simp add: readYaml_def two_books_fields)
  have toc_b: "readYaml two_books_host ''/b/_data/toc.yml'' = Inr demo_toc"
    by (simp add: readYaml_def two_books_fields)
  have title_b: "member (JObj [(''title'', JStr ''Demo'')]) ''title'' = Inr (JStr ''Demo'')"
    by simp
  have bad: "uriParse two_books_host ''my docs://page''
      = Inl (Error ''[UriError]: Scheme contains illegal characters.'')"
    by (simp add: two_books_fields)
  have good: "uriParse two_books_host ''https://example.org'' = Inr ''https://example.org''"
    "openExternal two_books_host ''https://example.org'' = None"
    by (simp_all add: two_books_fields)
  note t = file_errors_become_messages [where h = two_books_host and s = s]
  have n1: "fst (openNotebook two_books_host ''/b/content/gone.ipynb'' s) = Inr ()"
    using t [THEN conjunct1] .
  have n2: "trace (snd (openNotebook two_books_host ''/b/content/gone.ipynb'' s))
     = trace s @ [ShowErrorMessage ''Open file /b/content/gone.ipynb failed: ENOENT'']"
    using t [THEN conjunct2, THEN conjunct1, rule_format, OF disjI1 [OF gone]]
    by (simp add: two_books_fields argText_def)
  have n3: "trace (snd (openNotebook two_books_host ''/b/content/intro.ipynb'' s))
     = trace s @ [ShowTextDocument ''/b/content/intro.ipynb'']"
    using t [THEN conjunct2, THEN conjunct2, THEN conjunct1, rule_format, OF conjI [OF intro shown]] .
  have n4: "trace (snd (openNotebook h2 ''/b/content/intro.ipynb'' s))
     = trace s @ [ShowErrorMessage ''Open file /b/content/intro.ipynb failed: no editor'']"
    using file_errors_become_messages [where h = h2 and s = s and res = "''/b/content/intro.ipynb''"
        and e = "Error ''no editor''", THEN conjunct2, THEN conjunct1]
    by (simp add: h2 two_books_fields argText_def)
  have la: "loadBook two_books_host ''/a'' ''/a/_data/toc.yml'' = Inl (Error ''ENOENT'')"
    using t [THEN conjunct2, THEN conjunct2, THEN conjunct2, THEN conjunct2, THEN conjunct1,
        rule_format, OF cfg_a] .
  have lb: "loadBook two_books_host ''/b'' ''/b/_data/toc.yml'' =
     Inr \<lparr>title = JStr ''Demo'', root = ''/b'', tableOfContents = demo_sections, page = demo_toc,
          itemType = Book, iconLight = ''/ext/resources/light/book.svg'',
          iconDark = ''/ext/resources/dark/book_inverse.svg''\<rparr>"
    using t [THEN conjunct2, THEN conjunct2, THEN conjunct2, THEN conjunct2, THEN conjunct2,
        THEN conjunct2, THEN conjunct1, rule_format,
        OF conjI [OF cfg_b conjI [OF toc_b conjI [OF title_b two_books_flat]]]]
    by (simp add: two_books_fields)
  have lists: "loadedBooks two_books_host [''/a/_data/toc.yml'', ''/b/_data/toc.yml''] =
      [\<lparr>title = JStr ''Demo'', root = ''/b'', tableOfContents = demo_sections, page = demo_toc,
           itemType = Book, iconLight = ''/ext/resources/light/book.svg'',
           iconDark = ''/ext/resources/dark/book_inverse.svg''\<rparr>]"
    "bookMessages two_books_host [''/a/_data/toc.yml'', ''/b/_data/toc.yml''] =
      [ShowErrorMessage ''Open file /a/_config.yml failed: ENOENT'']"
    by (simp_all add: loadedBooks_def bookMessages_def two_books_loaded two_books_roots
        two_books_fields argText_def)
  note g = t [THEN conjunct2, THEN conjunct2, THEN conjunct2, THEN conjunct1]
  have g1: "fst (getBooks two_books_host s) =
     Inr [\<lparr>title = JStr ''Demo'', root = ''/b'', tableOfContents = demo_sections, page = demo_toc,
           itemType = Book, iconLight = ''/ext/resources/light/book.svg'',
           iconDark = ''/ext/resources/dark/book_inverse.svg''\<rparr>]"
    by (simp add: g paths lists)
  have g2: "trace (snd (getBooks two_books_host s))
     = trace s @ [ShowErrorMessage ''Open file /a/_config.yml failed: ENOENT'']"
    by (simp add: g paths lists)
  have x1: "trace (openExternalLink two_books_host ''my docs://page'' s)
     = trace s @ [ShowErrorMessage
          ''Open link my docs://page failed: [UriError]: Scheme contains illegal characters.'']"
    using t [THEN conjunct2, THEN conjunct2, THEN conjunct2, THEN conjunct2, THEN conjunct2,
        THEN conjunct2, THEN conjunct2, THEN conjunct1, rule_format, OF disjI1 [OF bad]]
    by (simp add: two_books_fields argText_def)
  have x2: "trace (openExternalLink two_books_host ''https://example.org'' s)
     = trace s @ [OpenExternal ''https://example.org'']"
    using t [THEN conjunct2, THEN conjunct2, THEN conjunct2, THEN conjunct2, THEN conjunct2,
        THEN conjunct2, THEN conjunct2, THEN conjunct2, rule_format, OF conjI [OF good]] .
  from gone n1 n2 n3 n4 paths cfg_a la lb g1 g2 bad x1 x2 show ?thesis
    unfolding s_def h2_def by (intro conjI)
qed

section \<open>The welcome page template\<close>

lemma weave_step: "concat rest = weave cs vs \<Longrightarrow> concat (c # v # rest) = weave (c # cs) (v # vs)"
  by simp

lemma weave_last: "concat [c] = weave [c] []"
  by simp

lemma weave_contains:
  "length cs = Suc (length vs) \<Longrightarrow> v \<in> set vs \<Longrightarrow> \<exists>pre post. weave cs vs = pre @ v @ post"
proof (induction cs vs rule: weave.induct)
  case (1 c cs w vs)
  show ?case
  proof (cases "v = w")
    case True
    then have "weave (c # cs) (w # vs) = c @ v @ weave cs vs" by simp
    then show ?thesis by blast
  next
    case False
    then have "v \<in> set vs" using 1 by simp
    moreover have "length cs = Suc (length vs)" using 1 by simp
    ultimately obtain pre post where "weave cs vs = pre @ v @ post" using 1 by blast
    then have "weave (c # cs) (w # vs) = (c @ w @ pre) @ v @ post" by simp
    then show ?thesis by blast
  qed
qed simp_all

lemma welcomePage_woven:
  \<open>\<exists>chunks. (\<forall>loc esc toUrl.
        welcomePage loc esc toUrl = weave chunks (map (holeValue loc esc toUrl) welcomeHoles)) \<and>
     length chunks = Suc (length welcomeHoles) \<and>
     (\<exists>rest. hd chunks = ''
<div class="welcomePageContainer">'' @ rest) \<and>
     (\<exists>front. last chunks = front @ ''</div>
'')\<close>
  apply (rule exI)
  apply (intro conjI allI)
     apply (unfold welcomePage_def welcomeHoles_def list.map holeValue.simps)
     apply (rule weave_step)+
     apply (rule weave_last)
    apply simp
   apply simp
  apply simp
  done

lemma holeValues_agree:
  assumes "\<forall>key message. esc (loc1 key message) = esc (loc2 key message)"
    and "\<forall>path. toUrl1 path = toUrl2 path"
  shows "map (holeValue loc1 esc toUrl1) holes = map (holeValue loc2 esc toUrl2) holes"
proof (induction holes)
  case Nil
  show ?case by simp
next
  case (Cons x xs)
  then show ?case using assms by (cases x) simp_all
qed

text \<open>
  C6. The welcome page is one string: fixed pieces of markup, beginning with the
  container \<^verbatim>\<open>div\<close> and ending with its closing tag, with the escaped localized
  messages and the image URLs between them, each in its place and in the order of the
  template. So every escaped message occurs in the page, and the page is a function of
  the localization results only after escaping: two localization functions whose
  escaped messages agree (in particular two with the same results), with the same
  \<^verbatim>\<open>toUrl\<close> results, give the same string.
\<close>

theorem welcomePage_escaped_template:
  \<open>(\<exists>chunks.
      (\<forall>loc esc toUrl.
         welcomePage loc esc toUrl = weave chunks (map (holeValue loc esc toUrl) welcomeHoles)) \<and>
      length chunks = Suc (length welcomeHoles) \<and>
      (\<exists>rest. hd chunks = ''
<div class="welcomePageContainer">'' @ rest) \<and>
      (\<exists>front. last chunks = front @ ''</div>
'')) \<and>
   (\<forall>x \<in> set welcomeHoles.
      \<exists>before after. welcomePage loc esc toUrl = before @ holeValue loc esc toUrl x @ after) \<and>
   ((\<forall>key message. esc (loc1 key message) = esc (loc2 key message)) \<and>
    (\<forall>path. toUrl1 path = toUrl2 path)
      \<longrightarrow> welcomePage loc1 esc toUrl1 = welcomePage loc2 esc toUrl2)\<close>
proof -
  obtain chunks where eq: "\<And>loc esc toUrl.
         welcomePage loc esc toUrl = weave chunks (map (holeValue loc esc toUrl) welcomeHoles)"
    and len: "length chunks = Suc (length welcomeHoles)"
    using welcomePage_woven by blast
  have contains: "\<exists>before after. welcomePage loc esc toUrl = before @ holeValue loc esc toUrl x @ after"
    if "x \<in> set welcomeHoles" for x
  proof -
    have "holeValue loc esc toUrl x \<in> set (map (holeValue loc esc toUrl) welcomeHoles)"
      using that by simp
    then show ?thesis
      using weave_contains [of chunks "map (holeValue loc esc toUrl) welcomeHoles"] len
      by (simp add: eq)
  qed
  have same: "welcomePage loc1 esc toUrl1 = welcomePage loc2 esc toUrl2"
    if "\<forall>key message. esc (loc1 key message) = esc (loc2 key message)"
      and "\<forall>path. toUrl1 path = toUrl2 path"
  proof -
    have "map (holeValue loc1 esc toUrl1) welcomeHoles = map (holeValue loc2 esc toUrl2) welcomeHoles"
      using holeValues_agree [of esc loc1 loc2 toUrl1 toUrl2 welcomeHoles] that by blast
    then show ?thesis by (simp only: eq)
  qed
  show ?thesis
    using welcomePage_woven contains same by blast
qed

theorem welcomePage_escaped_template_witness:
  \<open>Message ''welcomePage.new'' ''New'' \<in> set welcomeHoles \<and>
   holeValue demo_localize demo_escape (\<lambda>path. ''/app/'' @ path) (Message ''welcomePage.new'' ''New'')
     = ''New &amp; &lt;improved&gt;'' \<and>
   (\<exists>before after. welcomePage demo_localize demo_escape (\<lambda>path. ''/app/'' @ path)
      = before @ ''New &amp; &lt;improved&gt;'' @ after) \<and>
   Image ''./../../media/video_overview.png'' \<in> set welcomeHoles \<and>
   (\<exists>before after. welcomePage demo_localize demo_escape (\<lambda>path. ''/app/'' @ path)
      = before @ ''/app/./../../media/video_overview.png'' @ after) \<and>
   (\<forall>key message. demo_escape (demo_localize key message)
      = demo_escape (if key = ''welcomePage.new'' then ''New & <improved>'' else message)) \<and>
   welcomePage demo_localize demo_escape (\<lambda>path. ''/app/'' @ path)
     = welcomePage (\<lambda>key message. if key = ''welcomePage.new'' then ''New & <improved>'' else message)
         demo_escape (\<lambda>path. ''/app/'' @ path)\<close>
proof -
  note t = welcomePage_escaped_template [where loc = demo_localize and esc = demo_escape
      and toUrl = "\<lambda>path. ''/app/'' @ path" and ?loc1.0 = demo_localize
      and ?loc2.0 = "\<lambda>key message. if key = ''welcomePage.new'' then ''New & <improved>'' else message"
      and ?toUrl1.0 = "\<lambda>path. ''/app/'' @ path" and ?toUrl2.0 = "\<lambda>path. ''/app/'' @ path"]
  have m: "Message ''welcomePage.new'' ''New'' \<in> set welcomeHoles"
    by (simp add: welcomeHoles_def)
  have i: "Image ''./../../media/video_overview.png'' \<in> set welcomeHoles"
    by (simp add: welcomeHoles_def)
  have v: "holeValue demo_localize demo_escape (\<lambda>path. ''/app/'' @ path) (Message ''welcomePage.new'' ''New'')
     = ''New &amp; &lt;improved&gt;''"
    by (simp add: demo_localize_def)
  have v2: "holeValue demo_localize demo_escape (\<lambda>path. ''/app/'' @ path)
      (Image ''./../../media/video_overview.png'') = ''/app/./../../media/video_overview.png''"
    by simp
  have same: "\<forall>key message. demo_escape (demo_localize key message)
      = demo_escape (if key = ''welcomePage.new'' then ''New & <improved>'' else message)"
    by (simp add: demo_localize_def)
  have urls: "\<forall>path. ''/app/'' @ path = ''/app/'' @ path"
    by simp
  have c1: "\<exists>before after. welcomePage demo_localize demo_escape (\<lambda>path. ''/app/'' @ path)
      = before @ ''New &amp; &lt;improved&gt;'' @ after"
    using t [THEN conjunct2, THEN conjunct1, rule_format, OF m] unfolding v .
  have c2: "\<exists>before after. welcomePage demo_localize demo_escape (\<lambda>path. ''/app/'' @ path)
      = before @ ''/app/./../../media/video_overview.png'' @ after"
    using t [THEN conjunct2, THEN conjunct1, rule_format, OF i] unfolding v2 .
  have c3: "welcomePage demo_localize demo_escape (\<lambda>path. ''/app/'' @ path)
     = welcomePage (\<lambda>key message. if key = ''welcomePage.new'' then ''New & <improved>'' else message)
         demo_escape (\<lambda>path. ''/app/'' @ path)"
    using t [THEN conjunct2, THEN conjunct2, rule_format, OF conjI [OF same urls]] .
  from m v c1 i c2 same c3 show ?thesis
    by (intro conjI)
qed

section \<open>The language client's activation\<close>

text \<open>
  C10. No exception leaves the wiring block of \<^verbatim>\<open>activate\<close>: once the server path has
  been computed, \<^verbatim>\<open>activate\<close> returns normally, and an error thrown while creating the
  worker or while starting the client (which is where the language-client constructor
  and the request service are used) is logged to the console and nothing else happens.
\<close>

theorem activate_catches_wiring_errors:
  assumes "context_asAbsolutePath c ''server/dist/browser/jsonServerMain.js'' = Inr serverMain"
  shows "fst (activate c) = Inr () \<and>
         (newWorker c serverMain = Inl e \<longrightarrow> snd (activate c) = [ConsoleLog e]) \<and>
         (newWorker c serverMain = Inr w \<and> startClient c w = Some e \<longrightarrow>
            snd (activate c) = [ConsoleLog e]) \<and>
         (newWorker c serverMain = Inr w \<and> startClient c w = None \<longrightarrow> snd (activate c) = [])"
  using assms by (simp add: activate_def split: sum.splits option.splits)

theorem activate_catches_wiring_errors_witness:
  "context_asAbsolutePath demo_client ''server/dist/browser/jsonServerMain.js''
     = Inr ''/ext/server/dist/browser/jsonServerMain.js'' \<and>
   newWorker demo_client ''/ext/server/dist/browser/jsonServerMain.js''
     = Inl (Error ''Worker is not defined'') \<and>
   fst (activate demo_client) = Inr () \<and>
   snd (activate demo_client) = [ConsoleLog (Error ''Worker is not defined'')]"
proof -
  have p: "context_asAbsolutePath demo_client ''server/dist/browser/jsonServerMain.js''
      = Inr ''/ext/server/dist/browser/jsonServerMain.js''"
    by (simp add: demo_client_def)
  have w: "newWorker demo_client ''/ext/server/dist/browser/jsonServerMain.js''
      = Inl (Error ''Worker is not defined'')"
    by (simp add: demo_client_def)
  show ?thesis
    using activate_catches_wiring_errors [OF p, of "Error ''Worker is not defined''"] p w
    by simp
qed

end
